theory Spec2Isabelle
  imports Complex_Main "HOL-Library.AList"
begin

section \<open>Trading-plan generator (examples/07\_generate\_trading\_plan.py)\<close>

text \<open>
  Conventions of the embedding.
  \<^item> A Python \<open>dict\<close> whose iteration order is observable (target positions, current
    positions, the rebalancing result) is an association list with distinct keys, in
    insertion order. \<open>d[k] = v\<close> is \<open>AList.update k v d\<close>: an existing key keeps its
    place and gets the new value, a new key goes to the end. \<open>d.get(k)\<close> and
    \<open>k in d\<close> are \<open>map_of d k\<close>.
  \<^item> The price dictionary is only ever looked up, so it is a map; a key can be stored
    with the value \<open>None\<close>, hence the range \<open>pyfloat option\<close>.
  \<^item> \<open>calculate_target_positions\<close> computes in Python floats, which are IEEE binary64
    numbers: its arithmetic is modelled with rounding to nearest, ties to even, with the
    infinities and NaN (type \<open>pyfloat\<close> below). The dictionaries it returns, and
    everything \<open>calculate_rebalancing\<close> and \<open>generate_trading_plan\<close> compute from them,
    hold finite numbers as reals, with exact arithmetic.
  \<^item> Python \<open>int\<close> is \<open>int\<close>.
  \<^item> The three action strings (buy, sell, nothing to do) are the constructors of
    \<open>action\<close>.
  \<^item> Dictionary keys that occur in several of the source's dictionaries carry a prefix
    in the record fields (\<open>tp_\<close>, \<open>rb_\<close>, \<open>o_\<close>, \<open>n_\<close>).
\<close>

type_synonym instrument = string

type_synonym ('k, 'v) dict = "('k \<times> 'v) list"

subsection \<open>Python floats\<close>

text \<open>
  A float is a finite number, an infinity or NaN. The two zeros of binary64 are one
  value here: no operation of the source tells them apart (Python raises on a division
  by either). \<open>Fin\<close> is applied to any real; the values the arithmetic returns are
  binary64 numbers.
\<close>

datatype pyfloat = Fin real | PInf | NInf | NaN

datatype py_error = ZeroDivisionError | ValueError | OverflowError

text \<open>Rounding to the nearest integer, a tie going to the even one.\<close>

definition round_half_even :: "real \<Rightarrow> int" where
  "round_half_even r =
     (let f = \<lfloor>r\<rfloor>; d = r - of_int f
      in if d < 1 / 2 then f else if 1 / 2 < d then f + 1
         else if even f then f else f + 1)"

text \<open>
  Rounding a positive real to binary64 precision with unbounded exponent above: in the
  binade \<open>2^e \<le> x < 2^(e+1)\<close> the representable numbers are the multiples of
  \<open>2^(e-52)\<close>; below \<open>2^(-1022)\<close> (subnormal numbers) they are the multiples of
  \<open>2^(-1074)\<close>.
\<close>

definition round_pos :: "real \<Rightarrow> real" where
  "round_pos x =
     (let e = max (- 1022) \<lfloor>log 2 x\<rfloor>; q = 2 powi (e - 52)
      in of_int (round_half_even (x / q)) * q)"

text \<open>The binary64 result of an operation whose exact result is \<open>x\<close>: a rounded magnitude
  of \<open>2^1024\<close> or more is an infinity.\<close>

definition round_double :: "real \<Rightarrow> pyfloat" where
  "round_double x =
     (if x = 0 then Fin 0
      else if 0 < x then (if 2 ^ 1024 \<le> round_pos x then PInf else Fin (round_pos x))
      else (if 2 ^ 1024 \<le> round_pos (- x) then NInf else Fin (- round_pos (- x))))"

text \<open>\<open>a * b\<close> on floats.\<close>

fun fmul :: "pyfloat \<Rightarrow> pyfloat \<Rightarrow> pyfloat" where
  "fmul (Fin x) (Fin y) = round_double (x * y)"
| "fmul NaN b = NaN"
| "fmul a NaN = NaN"
| "fmul (Fin x) PInf = (if x = 0 then NaN else if 0 < x then PInf else NInf)"
| "fmul (Fin x) NInf = (if x = 0 then NaN else if 0 < x then NInf else PInf)"
| "fmul PInf (Fin y) = (if y = 0 then NaN else if 0 < y then PInf else NInf)"
| "fmul NInf (Fin y) = (if y = 0 then NaN else if 0 < y then NInf else PInf)"
| "fmul PInf PInf = PInf"
| "fmul PInf NInf = NInf"
| "fmul NInf PInf = NInf"
| "fmul NInf NInf = PInf"

text \<open>The quotient of a float by a finite number that is not zero.\<close>

fun div_by :: "pyfloat \<Rightarrow> real \<Rightarrow> pyfloat" where
  "div_by (Fin x) y = round_double (x / y)"
| "div_by PInf y = (if 0 < y then PInf else NInf)"
| "div_by NInf y = (if 0 < y then NInf else PInf)"
| "div_by NaN y = NaN"

text \<open>\<open>a / b\<close> on floats: Python raises on a zero divisor before dividing.\<close>

fun fdiv :: "pyfloat \<Rightarrow> pyfloat \<Rightarrow> py_error + pyfloat" where
  "fdiv a (Fin y) = (if y = 0 then Inl ZeroDivisionError else Inr (div_by a y))"
| "fdiv (Fin x) PInf = Inr (Fin 0)"
| "fdiv (Fin x) NInf = Inr (Fin 0)"
| "fdiv a b = Inr NaN"

fun fsub :: "pyfloat \<Rightarrow> pyfloat \<Rightarrow> pyfloat" where
  "fsub (Fin x) (Fin y) = round_double (x - y)"
| "fsub NaN b = NaN"
| "fsub a NaN = NaN"
| "fsub (Fin x) PInf = NInf"
| "fsub (Fin x) NInf = PInf"
| "fsub PInf (Fin y) = PInf"
| "fsub NInf (Fin y) = NInf"
| "fsub PInf NInf = PInf"
| "fsub NInf PInf = NInf"
| "fsub PInf PInf = NaN"
| "fsub NInf NInf = NaN"

text \<open>Truncation toward zero, and C's \<open>fmod\<close>, which is exact.\<close>

definition trunc :: "real \<Rightarrow> int" where
  "trunc r = (if 0 \<le> r then \<lfloor>r\<rfloor> else \<lceil>r\<rceil>)"

definition fmod :: "real \<Rightarrow> real \<Rightarrow> real" where
  "fmod v w = v - w * of_int (trunc (v / w))"

text \<open>
  \<open>x // 100\<close> on a float, as CPython computes it: the remainder \<open>mod = fmod(x, 100)\<close>,
  the quotient \<open>div = (x - mod) / 100\<close>, one less when the remainder is negative, then
  \<open>div\<close> snapped to an integer (\<open>floor(div)\<close>, plus one when \<open>div - floor(div) > 0.5\<close>).
  An infinite or NaN \<open>x\<close> gives NaN.
\<close>

fun gt_half :: "pyfloat \<Rightarrow> bool" where
  "gt_half (Fin t) = (1 / 2 < t)"
| "gt_half PInf = True"
| "gt_half NInf = False"
| "gt_half NaN = False"

fun snap :: "pyfloat \<Rightarrow> pyfloat" where
  "snap (Fin r) =
     (if r = 0 then Fin 0
      else (let f = of_int \<lfloor>r\<rfloor>
            in if gt_half (round_double (r - f)) then round_double (f + 1) else Fin f))"
| "snap a = a"

fun floor_div_100 :: "pyfloat \<Rightarrow> pyfloat" where
  "floor_div_100 (Fin v) =
     (let m = fmod v 100;
          d0 = div_by (fsub (Fin v) (Fin m)) 100;
          d = (if m \<noteq> 0 \<and> m < 0 then fsub d0 (Fin 1) else d0)
      in snap d)"
| "floor_div_100 a = NaN"

text \<open>\<open>int(x)\<close> on a float: truncation, \<open>ValueError\<close> on NaN, \<open>OverflowError\<close> on an
  infinity.\<close>

fun py_int :: "pyfloat \<Rightarrow> py_error + int" where
  "py_int (Fin r) = Inr (trunc r)"
| "py_int NaN = Inl ValueError"
| "py_int a = Inl OverflowError"

text \<open>
  The conversion of an \<open>int\<close> operand to float in mixed arithmetic: correctly rounded,
  \<open>OverflowError\<close> when the integer is too large for a float.
\<close>

definition float_of_int :: "int \<Rightarrow> py_error + pyfloat" where
  "float_of_int k =
     (case round_double (of_int k) of Fin y \<Rightarrow> Inr (Fin y) | _ \<Rightarrow> Inl OverflowError)"

text \<open>\<open>a / k\<close> and \<open>k * b\<close> for a float and an \<open>int\<close>.\<close>

definition float_div_int :: "pyfloat \<Rightarrow> int \<Rightarrow> py_error + pyfloat" where
  "float_div_int a k =
     (case float_of_int k of Inl e \<Rightarrow> Inl e | Inr b \<Rightarrow> fdiv a b)"

definition int_mul_float :: "int \<Rightarrow> pyfloat \<Rightarrow> py_error + pyfloat" where
  "int_mul_float k b =
     (case float_of_int k of Inl e \<Rightarrow> Inl e | Inr a \<Rightarrow> Inr (fmul a b))"

text \<open>\<open>x <= 0\<close> and \<open>x >= 0\<close> on a float: false on NaN.\<close>

fun float_le_zero :: "pyfloat \<Rightarrow> bool" where
  "float_le_zero (Fin p) = (p \<le> 0)"
| "float_le_zero NInf = True"
| "float_le_zero a = False"

fun float_ge_zero :: "pyfloat \<Rightarrow> bool" where
  "float_ge_zero (Fin a) = (0 \<le> a)"
| "float_ge_zero PInf = True"
| "float_ge_zero a = False"

subsection \<open>The dictionaries\<close>

record holding =
  quantity :: int
  cost_price :: real
  current_price :: real

record target_position =
  tp_weight :: real
  tp_target_amount :: real
  tp_target_qty :: int
  tp_actual_amount :: real
  tp_price :: real

datatype action = Buy | Sell | NoAction

record rebalance =
  rb_target_qty :: int
  rb_current_qty :: int
  rb_diff :: int
  rb_action :: action
  rb_action_qty :: int
  rb_price :: real

record order_item =
  o_stock :: instrument
  o_quantity :: int
  o_price :: real
  o_amount :: real

record no_action_item =
  n_stock :: instrument
  n_target_qty :: int
  n_current_qty :: int

record trading_plan =
  buy_list :: "order_item list"
  sell_list :: "order_item list"
  no_action_list :: "no_action_item list"
  total_buy_amount :: real
  total_sell_amount :: real
  available_cash :: real
  cash_balance :: real

subsection \<open>calculate\_target\_positions\<close>

text \<open>
  The function either returns a dictionary or raises. A third outcome belongs to the
  model only: the dictionaries hold finite reals, so a run that would store a float that
  is not finite (an infinite price, or an actual amount that is infinite or NaN) ends in
  \<open>NonFiniteStored\<close>.
\<close>

datatype failure = Raised py_error | NonFiniteStored

text \<open>\<open>prices.get(stock)\<close>: a missing key and a stored \<open>None\<close> both give \<open>None\<close>.\<close>

definition prices_get :: "(instrument \<rightharpoonup> pyfloat option) \<Rightarrow> instrument \<Rightarrow> pyfloat option" where
  "prices_get prices stock = (case prices stock of None \<Rightarrow> None | Some v \<Rightarrow> v)"

text \<open>The dictionary literal of lines 162 to 168.\<close>

definition store_entry ::
  "pyfloat \<Rightarrow> pyfloat \<Rightarrow> int \<Rightarrow> pyfloat \<Rightarrow> pyfloat \<Rightarrow> failure + target_position" where
  "store_entry weight target_amount target_qty actual_amount price =
     (case (weight, target_amount, actual_amount, price) of
        (Fin w, Fin ta, Fin aa, Fin p) \<Rightarrow>
          Inr \<lparr>tp_weight = w, tp_target_amount = ta, tp_target_qty = target_qty,
               tp_actual_amount = aa, tp_price = p\<rparr>
      | _ \<Rightarrow> Inl NonFiniteStored)"

text \<open>
  The loop body for a price that passed the check (lines 158 to 168):
  \<open>target_qty = int((target_amount / price) // 100) * 100\<close> and
  \<open>actual_amount = target_qty * price\<close>.
\<close>

definition target_entry :: "pyfloat \<Rightarrow> pyfloat \<Rightarrow> pyfloat \<Rightarrow> failure + target_position" where
  "target_entry weight target_amount price =
     (case fdiv target_amount price of
        Inl e \<Rightarrow> Inl (Raised e)
      | Inr q \<Rightarrow>
          (case py_int (floor_div_100 q) of
             Inl e \<Rightarrow> Inl (Raised e)
           | Inr k \<Rightarrow>
               let target_qty = k * 100
               in (case int_mul_float target_qty price of
                     Inl e \<Rightarrow> Inl (Raised e)
                   | Inr actual_amount \<Rightarrow>
                       store_entry weight target_amount target_qty actual_amount price)))"

text \<open>\<open>for stock in stocks\<close>, with the check \<open>price is None or price <= 0\<close>.\<close>

fun target_loop ::
  "pyfloat \<Rightarrow> pyfloat \<Rightarrow> (instrument \<rightharpoonup> pyfloat option) \<Rightarrow> instrument list \<Rightarrow>
   (instrument, target_position) dict \<Rightarrow> failure + (instrument, target_position) dict" where
  "target_loop weight target_amount prices [] target_positions = Inr target_positions"
| "target_loop weight target_amount prices (stock # rest) target_positions =
     (case prices_get prices stock of
        None \<Rightarrow> target_loop weight target_amount prices rest target_positions
      | Some price \<Rightarrow>
          if float_le_zero price
          then target_loop weight target_amount prices rest target_positions
          else (case target_entry weight target_amount price of
                  Inl f \<Rightarrow> Inl f
                | Inr entry \<Rightarrow>
                    target_loop weight target_amount prices rest
                      (AList.update stock entry target_positions)))"

text \<open>\<open>weight = 1.0 / n_stocks\<close> and \<open>target_amount = total_assets * weight\<close>.\<close>

definition calculate_target_positions ::
  "pyfloat \<Rightarrow> instrument list \<Rightarrow> (instrument \<rightharpoonup> pyfloat option) \<Rightarrow>
   failure + (instrument, target_position) dict" where
  "calculate_target_positions total_assets stocks prices =
     (let n_stocks = length stocks in
      if n_stocks = 0 then Inr []
      else (case float_div_int (Fin 1) (int n_stocks) of
              Inl e \<Rightarrow> Inl (Raised e)
            | Inr weight \<Rightarrow>
                let target_amount = fmul total_assets weight
                in target_loop weight target_amount prices stocks []))"

subsection \<open>calculate\_rebalancing\<close>

text \<open>First loop: \<open>for stock, target in target_positions.items()\<close>.\<close>

fun rebalance_targets ::
  "(instrument \<times> target_position) list \<Rightarrow> (instrument, holding) dict \<Rightarrow>
   (instrument, rebalance) dict \<Rightarrow> (instrument, rebalance) dict" where
  "rebalance_targets [] current_positions rebalancing = rebalancing"
| "rebalance_targets ((stock, target) # rest) current_positions rebalancing =
     (let current_qty = (case map_of current_positions stock of
                           None \<Rightarrow> 0 | Some current \<Rightarrow> quantity current);
          target_qty = tp_target_qty target;
          diff = target_qty - current_qty
      in rebalance_targets rest current_positions
           (AList.update stock
              \<lparr>rb_target_qty = target_qty, rb_current_qty = current_qty, rb_diff = diff,
               rb_action = (if diff > 0 then Buy else if diff < 0 then Sell else NoAction),
               rb_action_qty = (if diff \<noteq> 0 then \<bar>diff\<bar> else 0),
               rb_price = tp_price target\<rparr>
              rebalancing))"

text \<open>
  Second loop: \<open>for stock, current in current_positions.items()\<close>, the holdings that are
  not a key of the target positions. Every holding built by \<open>read_current_positions\<close>
  has the key \<open>current_price\<close>, so the default of \<open>current.get('current_price', 0)\<close>
  is never taken.
\<close>

fun rebalance_current ::
  "(instrument \<times> holding) list \<Rightarrow> (instrument, target_position) dict \<Rightarrow>
   (instrument, rebalance) dict \<Rightarrow> (instrument, rebalance) dict" where
  "rebalance_current [] target_positions rebalancing = rebalancing"
| "rebalance_current ((stock, current) # rest) target_positions rebalancing =
     (if map_of target_positions stock = None
      then rebalance_current rest target_positions
             (AList.update stock
                \<lparr>rb_target_qty = 0, rb_current_qty = quantity current,
                 rb_diff = - quantity current, rb_action = Sell,
                 rb_action_qty = quantity current, rb_price = current_price current\<rparr>
                rebalancing)
      else rebalance_current rest target_positions rebalancing)"

definition calculate_rebalancing ::
  "(instrument, target_position) dict \<Rightarrow> (instrument, holding) dict \<Rightarrow>
   (instrument, rebalance) dict" where
  "calculate_rebalancing target_positions current_positions =
     rebalance_current current_positions target_positions
       (rebalance_targets target_positions current_positions [])"

subsection \<open>generate\_trading\_plan\<close>

text \<open>\<open>for stock, info in rebalancing.items()\<close>, appending to one of the three lists.\<close>

fun plan_loop ::
  "(instrument \<times> rebalance) list \<Rightarrow> order_item list \<Rightarrow> order_item list \<Rightarrow>
   no_action_item list \<Rightarrow> order_item list \<times> order_item list \<times> no_action_item list" where
  "plan_loop [] buys sells holds = (buys, sells, holds)"
| "plan_loop ((stock, info) # rest) buys sells holds =
     (if rb_action info = Buy
      then plan_loop rest
             (buys @ [\<lparr>o_stock = stock, o_quantity = rb_action_qty info,
                       o_price = rb_price info,
                       o_amount = real_of_int (rb_action_qty info) * rb_price info\<rparr>])
             sells holds
      else if rb_action info = Sell
      then plan_loop rest buys
             (sells @ [\<lparr>o_stock = stock, o_quantity = rb_action_qty info,
                        o_price = rb_price info,
                        o_amount = real_of_int (rb_action_qty info) * rb_price info\<rparr>])
             holds
      else plan_loop rest buys sells
             (holds @ [\<lparr>n_stock = stock, n_target_qty = rb_target_qty info,
                        n_current_qty = rb_current_qty info\<rparr>]))"

text \<open>Python's \<open>sum\<close>: a left fold from 0.\<close>

definition py_sum :: "real list \<Rightarrow> real" where
  "py_sum xs = foldl (+) 0 xs"

definition generate_trading_plan ::
  "(instrument, rebalance) dict \<Rightarrow> real \<Rightarrow> trading_plan" where
  "generate_trading_plan rebalancing cash =
     (case plan_loop rebalancing [] [] [] of
        (buys, sells, holds) \<Rightarrow>
          let total_buy = py_sum (map o_amount buys);
              total_sell = py_sum (map o_amount sells);
              available = cash + total_sell - total_buy
          in \<lparr>buy_list = buys, sell_list = sells, no_action_list = holds,
              total_buy_amount = total_buy, total_sell_amount = total_sell,
              available_cash = available, cash_balance = cash\<rparr>)"

subsection \<open>read\_selection\_result\<close>

text \<open>
  The argument is what \<open>open(file_path, 'r', encoding='utf-8')\<close> gives to read: \<open>None\<close>
  when the file cannot be opened or decoded (the outer \<open>except\<close> then calls
  \<open>sys.exit(1)\<close>), otherwise the decoded text after Python's newline translation.

  \<open>csv.DictReader\<close> belongs to Python's standard library. It is modelled on the texts
  of \<open>in_model\<close>: ASCII, with no double quote (the reader's quoting rules are not
  modelled), no carriage return (newline translation leaves none) and no NUL (its
  handling differs between Python versions). Any other text gets the answer
  \<open>OutsideModel\<close>.
\<close>

datatype outcome = Returned "string list" | SystemExit | OutsideModel

definition in_model :: "string \<Rightarrow> bool" where
  "in_model text =
     list_all (\<lambda>c. c \<noteq> CHR 0x22 \<and> c \<noteq> CHR 0x0D \<and> c \<noteq> CHR 0x00 \<and> of_char c < (128::nat))
       text"

fun split_on :: "char \<Rightarrow> string \<Rightarrow> string list" where
  "split_on sep [] = [[]]"
| "split_on sep (c # cs) =
     (if c = sep then [] # split_on sep cs
      else (case split_on sep cs of
              [] \<Rightarrow> [[c]]
            | piece # pieces \<Rightarrow> (c # piece) # pieces))"

text \<open>
  Iterating over the file: the lines, here without their terminator (both consumers drop
  it). A text that ends in a newline has no further, empty line after it.
\<close>

definition file_lines :: "string \<Rightarrow> string list" where
  "file_lines text =
     (let pieces = split_on (CHR 0x0A) text
      in if last pieces = [] then butlast pieces else pieces)"

text \<open>\<open>str.strip()\<close> on ASCII text: the whitespace characters are 9 to 13 and 28 to 32.\<close>

definition is_space :: "char \<Rightarrow> bool" where
  "is_space c =
     (let n = (of_char c :: nat) in (9 \<le> n \<and> n \<le> 13) \<or> (28 \<le> n \<and> n \<le> 32))"

definition py_strip :: "string \<Rightarrow> string" where
  "py_strip s = rev (dropWhile is_space (rev (dropWhile is_space s)))"

text \<open>
  \<open>csv.reader\<close> on one line without quotes: an empty line is the empty row, any other
  line is split at the commas. The reader raises \<open>csv.Error\<close> on a field longer than
  \<open>csv.field_size_limit()\<close>, 131072 by default.
\<close>

definition field_size_limit :: nat where
  "field_size_limit = 131072"

datatype csv_error = CsvError

definition csv_row :: "string \<Rightarrow> csv_error + string list" where
  "csv_row line =
     (if line = [] then Inr []
      else (let fields = split_on (CHR '','') line
            in if list_ex (\<lambda>f. field_size_limit < length f) fields
               then Inl CsvError else Inr fields))"

text \<open>
  The dictionary \<open>DictReader\<close> builds for a row: \<open>dict(zip(fieldnames, row))\<close>, then
  \<open>None\<close> for the field names beyond the row's length. (The surplus values of a longer
  row go under the key \<open>None\<close>, which no lookup of the source uses.)
\<close>

definition dict_row :: "string list \<Rightarrow> string list \<Rightarrow> (string \<rightharpoonup> string option)" where
  "dict_row fieldnames row =
     foldl (\<lambda>d key. d(key \<mapsto> None))
       (foldl (\<lambda>d (key, v). d(key \<mapsto> Some v)) Map.empty (zip fieldnames row))
       (drop (length row) fieldnames)"

definition row_get :: "(string \<rightharpoonup> string option) \<Rightarrow> string \<Rightarrow> string option" where
  "row_get d key = (case d key of None \<Rightarrow> None | Some v \<Rightarrow> v)"

text \<open>Python's \<open>a or b\<close>: \<open>a\<close> when it is a non-empty string, otherwise \<open>b\<close>.\<close>

definition py_or :: "string option \<Rightarrow> string option \<Rightarrow> string option" where
  "py_or a b = (case a of Some (c # cs) \<Rightarrow> a | _ \<Rightarrow> b)"

text \<open>
  \<open>for row in reader\<close> after the header: \<open>DictReader\<close> skips empty rows. The list
  \<open>stocks\<close> is mutated in place, so an exception leaves what was appended before it:
  \<open>Inl stocks\<close> is "raised, with \<open>stocks\<close> so far", \<open>Inr stocks\<close> is "finished".
\<close>

fun csv_loop :: "string list \<Rightarrow> string list \<Rightarrow> string list \<Rightarrow> string list + string list" where
  "csv_loop fieldnames [] stocks = Inr stocks"
| "csv_loop fieldnames (line # rest) stocks =
     (case csv_row line of
        Inl e \<Rightarrow> Inl stocks
      | Inr row \<Rightarrow>
          if row = [] then csv_loop fieldnames rest stocks
          else (let d = dict_row fieldnames row;
                    stock = py_or (py_or (row_get d ''stock_code'') (row_get d ''instrument''))
                              (row_get d ''code'')
                in (case stock of
                      Some (c # cs) \<Rightarrow> csv_loop fieldnames rest (stocks @ [py_strip (c # cs)])
                    | _ \<Rightarrow> csv_loop fieldnames rest stocks)))"

text \<open>
  The inner \<open>try\<close> block: the first row read, whatever it is, becomes the field names;
  an empty file ends the loop at once.
\<close>

definition try_csv :: "string list \<Rightarrow> string list + string list" where
  "try_csv lines =
     (case lines of
        [] \<Rightarrow> Inr []
      | header # rest \<Rightarrow>
          (case csv_row header of
             Inl e \<Rightarrow> Inl []
           | Inr fieldnames \<Rightarrow> csv_loop fieldnames rest []))"

text \<open>The bare \<open>except\<close> block: \<open>f.seek(0)\<close> and one instrument per line.\<close>

fun line_loop :: "string list \<Rightarrow> string list \<Rightarrow> string list" where
  "line_loop [] stocks = stocks"
| "line_loop (line # rest) stocks =
     (let line' = py_strip line
      in if line' \<noteq> [] \<and> \<not> (hd line' = CHR ''#'')
         then line_loop rest (stocks @ [line']) else line_loop rest stocks)"

definition read_selection_result :: "string option \<Rightarrow> outcome" where
  "read_selection_result file =
     (case file of
        None \<Rightarrow> SystemExit
      | Some text \<Rightarrow>
          if \<not> in_model text then OutsideModel
          else (case try_csv (file_lines text) of
                  Inr stocks \<Rightarrow> Returned stocks
                | Inl stocks \<Rightarrow> Returned (line_loop (file_lines text) stocks)))"

subsection \<open>Vocabulary of the statements\<close>

text \<open>
  A price passes the loop's check when the lookup gives a float for which \<open>price <= 0\<close>
  is false: a positive number, but also \<open>+inf\<close> and NaN.
\<close>

definition valid_price :: "(instrument \<rightharpoonup> pyfloat option) \<Rightarrow> instrument \<Rightarrow> bool" where
  "valid_price prices stock =
     (case prices_get prices stock of None \<Rightarrow> False | Some p \<Rightarrow> \<not> float_le_zero p)"

definition price_of :: "(instrument \<rightharpoonup> pyfloat option) \<Rightarrow> instrument \<Rightarrow> pyfloat" where
  "price_of prices stock = (case prices_get prices stock of None \<Rightarrow> NaN | Some p \<Rightarrow> p)"

text \<open>The sum of \<open>actual_amount\<close> over an allocation.\<close>

definition total_actual_amount :: "(instrument, target_position) dict \<Rightarrow> real" where
  "total_actual_amount tps = sum_list (map (\<lambda>(s, e). tp_actual_amount e) tps)"

text \<open>The action the first loop of \<open>calculate_rebalancing\<close> stores for a target.\<close>

definition target_action :: "(instrument, holding) dict \<Rightarrow> instrument \<Rightarrow> target_position \<Rightarrow> rebalance" where
  "target_action current_positions stock target =
     (let current_qty = (case map_of current_positions stock of
                           None \<Rightarrow> 0 | Some current \<Rightarrow> quantity current);
          diff = tp_target_qty target - current_qty
      in \<lparr>rb_target_qty = tp_target_qty target, rb_current_qty = current_qty, rb_diff = diff,
          rb_action = (if diff > 0 then Buy else if diff < 0 then Sell else NoAction),
          rb_action_qty = (if diff \<noteq> 0 then \<bar>diff\<bar> else 0),
          rb_price = tp_price target\<rparr>)"

text \<open>The action the second loop stores for a holding that is not a target.\<close>

definition liquidation :: "holding \<Rightarrow> rebalance" where
  "liquidation current =
     \<lparr>rb_target_qty = 0, rb_current_qty = quantity current,
      rb_diff = - quantity current, rb_action = Sell,
      rb_action_qty = quantity current, rb_price = current_price current\<rparr>"

text \<open>The entries \<open>generate_trading_plan\<close> appends to its lists.\<close>

definition order_of :: "instrument \<Rightarrow> rebalance \<Rightarrow> order_item" where
  "order_of stock info =
     \<lparr>o_stock = stock, o_quantity = rb_action_qty info, o_price = rb_price info,
      o_amount = real_of_int (rb_action_qty info) * rb_price info\<rparr>"

definition hold_of :: "instrument \<Rightarrow> rebalance \<Rightarrow> no_action_item" where
  "hold_of stock info =
     \<lparr>n_stock = stock, n_target_qty = rb_target_qty info, n_current_qty = rb_current_qty info\<rparr>"

text \<open>The instruments of the three lists of a plan.\<close>

definition buy_stocks :: "trading_plan \<Rightarrow> instrument list" where
  "buy_stocks plan = map o_stock (buy_list plan)"

definition sell_stocks :: "trading_plan \<Rightarrow> instrument list" where
  "sell_stocks plan = map o_stock (sell_list plan)"

definition hold_stocks :: "trading_plan \<Rightarrow> instrument list" where
  "hold_stocks plan = map n_stock (no_action_list plan)"

section \<open>Rounding to binary64\<close>

lemma round_half_even_nonneg: "0 \<le> r \<Longrightarrow> 0 \<le> round_half_even r"
  by (auto simp: round_half_even_def Let_def)

lemma round_half_even_ge_floor: "\<lfloor>r\<rfloor> \<le> round_half_even r"
  by (auto simp: round_half_even_def Let_def)

lemma round_half_even_of_int [simp]: "round_half_even (of_int m) = m"
  by (simp add: round_half_even_def)

lemma round_pos_nonneg: "0 < x \<Longrightarrow> 0 \<le> round_pos x"
  by (simp add: round_pos_def Let_def round_half_even_nonneg)

lemma powr_two_int: "(2::real) powr real_of_int n = 2 powi n"
  by (simp add: powr_real_of_int')

lemma floor_log2_bounds:
  assumes "0 < x"
  shows "2 powi \<lfloor>log 2 x\<rfloor> \<le> x" and "x < 2 powi (\<lfloor>log 2 x\<rfloor> + 1)"
proof -
  have "(2::real) powr real_of_int \<lfloor>log 2 x\<rfloor> \<le> 2 powr log 2 x"
    by (intro powr_mono) simp_all
  with assms show "2 powi \<lfloor>log 2 x\<rfloor> \<le> x"
    by (simp add: powr_real_of_int')
  have "log 2 x < real_of_int (\<lfloor>log 2 x\<rfloor> + 1)" by simp
  then have "(2::real) powr log 2 x < 2 powr real_of_int (\<lfloor>log 2 x\<rfloor> + 1)"
    by (intro powr_less_mono) simp_all
  with assms show "x < 2 powi (\<lfloor>log 2 x\<rfloor> + 1)"
    unfolding powr_two_int by simp
qed

lemma floor_log2_eqI:
  assumes "0 < x" "2 powi e \<le> x" "x < 2 powi (e + 1)"
  shows "\<lfloor>log 2 x\<rfloor> = e"
proof (rule floor_unique)
  from assms(2) have "2 powr real_of_int e \<le> x" by (simp add: powr_real_of_int')
  with assms(1) show "real_of_int e \<le> log 2 x" by (simp add: le_log_iff)
  from assms(3) have "x < 2 powr real_of_int (e + 1)" unfolding powr_two_int .
  with assms(1) have "log 2 x < real_of_int (e + 1)" by (simp add: log_less_iff)
  then show "log 2 x < real_of_int e + 1" by simp
qed

lemma round_pos_ge_one:
  assumes "1 \<le> x"
  shows "1 \<le> round_pos x"
proof -
  let ?e = "\<lfloor>log 2 x\<rfloor>"
  from assms have x: "0 < x" by simp
  from assms have "0 \<le> log 2 x" by simp
  then have e: "0 \<le> ?e" by simp
  then have m: "max (- 1022) ?e = ?e" by simp
  let ?q = "(2::real) powi (?e - 52)"
  have q: "0 < ?q" by simp
  have pe: "(2::real) powi ?e \<le> x" by (rule floor_log2_bounds(1)[OF x])
  have split: "(2::real) powi ?e = 2 ^ 52 * ?q"
    by (simp add: power_int_diff)
  have "2 ^ 52 \<le> x / ?q"
    using pe q unfolding split by (simp add: field_simps)
  then have "2 ^ 52 \<le> \<lfloor>x / ?q\<rfloor>" by (simp add: le_floor_iff)
  with round_half_even_ge_floor[of "x / ?q"] have "2 ^ 52 \<le> round_half_even (x / ?q)" by linarith
  then have "(2 ^ 52 :: real) \<le> of_int (round_half_even (x / ?q))"
    by (metis of_int_le_iff of_int_numeral of_int_power)
  then have "2 ^ 52 * ?q \<le> of_int (round_half_even (x / ?q)) * ?q"
    using q by (simp add: mult_right_mono)
  moreover have "(1::real) \<le> 2 powi ?e" using e by (simp add: one_le_power_int)
  ultimately have "1 \<le> of_int (round_half_even (x / ?q)) * ?q"
    unfolding split[symmetric] by linarith
  then show ?thesis by (simp add: round_pos_def Let_def m)
qed

lemma round_pos_int_exact:
  assumes "1 \<le> k" "k < 2 ^ 53"
  shows "round_pos (of_int k) = of_int k"
proof -
  let ?x = "real_of_int k"
  let ?e = "\<lfloor>log 2 ?x\<rfloor>"
  from assms have x: "0 < ?x" "1 \<le> ?x" by simp_all
  then have "0 \<le> log 2 ?x" by simp
  then have e0: "0 \<le> ?e" by simp
  have e52: "?e \<le> 52"
  proof (rule ccontr)
    assume "\<not> ?e \<le> 52"
    then have "53 \<le> ?e" by simp
    then have "(2::real) powi 53 \<le> 2 powi ?e" by (intro power_int_increasing) simp_all
    with floor_log2_bounds(1)[OF x(1)] have "(2::real) ^ 53 \<le> ?x" by simp
    then have "(2::int) ^ 53 \<le> k" by (metis of_int_le_iff of_int_numeral of_int_power)
    with assms(2) show False by simp
  qed
  from e0 have m: "max (- 1022) ?e = ?e" by simp
  let ?n = "nat (52 - ?e)"
  have "?e - 52 = - int ?n" using e52 by simp
  then have q: "(2::real) powi (?e - 52) = inverse (2 ^ ?n)"
    by (simp only: power_int_minus power_int_of_nat)
  have "?x / (2 powi (?e - 52)) = of_int (k * 2 ^ ?n)"
    unfolding q by (simp add: field_simps)
  then have "round_half_even (?x / (2 powi (?e - 52))) = k * 2 ^ ?n"
    by (simp only: round_half_even_of_int)
  then show ?thesis
    unfolding round_pos_def Let_def m by (simp add: q)
qed

lemma round_double_int:
  assumes "\<bar>k\<bar> < 2 ^ 53"
  shows "round_double (of_int k) = Fin (of_int k)"
proof -
  have big: "real_of_int j < 2 ^ 1024" if "j < 2 ^ 53" for j
  proof -
    from that have "real_of_int j < 2 ^ 53" by (metis of_int_less_iff of_int_numeral of_int_power)
    also have "(2::real) ^ 53 \<le> 2 ^ 1024" by (rule power_increasing) simp_all
    finally show ?thesis .
  qed
  consider "k = 0" | "1 \<le> k" | "k \<le> - 1" by linarith
  then show ?thesis
  proof cases
    case 1
    then show ?thesis by (simp add: round_double_def)
  next
    case 2
    with assms have "k < 2 ^ 53" by simp
    with 2 have "round_pos (of_int k) = of_int k" by (rule round_pos_int_exact)
    with 2 big[OF \<open>k < 2 ^ 53\<close>] show ?thesis by (simp add: round_double_def)
  next
    case 3
    with assms have k: "1 \<le> - k" "- k < 2 ^ 53" by simp_all
    then have "round_pos (of_int (- k)) = of_int (- k)" by (rule round_pos_int_exact)
    with 3 big[OF k(2)] show ?thesis by (simp add: round_double_def)
  qed
qed

lemma round_double_numeral:
  "(numeral n :: int) < 2 ^ 53 \<Longrightarrow> round_double (numeral n) = Fin (numeral n)"
  "(numeral n :: int) < 2 ^ 53 \<Longrightarrow> round_double (- numeral n) = Fin (- numeral n)"
  "round_double 1 = Fin 1" "round_double (- 1) = Fin (- 1)" "round_double 0 = Fin 0"
  using round_double_int[of "numeral n"] round_double_int[of "- numeral n"]
    round_double_int[of 1] round_double_int[of "- 1"]
  by (simp_all add: round_double_def)

lemma round_half_even_numeral [simp]: "round_half_even (numeral n) = numeral n"
  using round_half_even_of_int[of "numeral n"] by simp

lemma round_double_half: "round_double (1 / 2) = Fin (1 / 2)"
proof -
  have e: "\<lfloor>log 2 (1 / 2 :: real)\<rfloor> = - 1"
    by (rule floor_log2_eqI) (simp_all add: power_int_minus)
  have q: "(2::real) powi (- 53) = 1 / 2 ^ 53"
    by (simp add: power_int_minus inverse_eq_divide)
  have r: "round_half_even ((1 / 2 :: real) / (1 / 2 ^ 53)) = 2 ^ 52"
  proof -
    have "(1 / 2 :: real) / (1 / 2 ^ 53) = real_of_int (2 ^ 52)" by simp
    show ?thesis unfolding \<open>(1 / 2 :: real) / (1 / 2 ^ 53) = real_of_int (2 ^ 52)\<close>
      by (rule round_half_even_of_int)
  qed
  have "round_pos (1 / 2) = 1 / 2"
    unfolding round_pos_def Let_def e by (simp add: q r)
  then show ?thesis by (simp add: round_double_def)
qed

lemma trunc_of_int [simp]: "trunc (of_int k) = k"
  by (simp add: trunc_def)

lemma trunc_floor_100:
  "\<lfloor>v / 100\<rfloor> = (if fmod v 100 < 0 then trunc (v / 100) - 1 else trunc (v / 100))"
proof (cases "0 \<le> v")
  case True
  then have t: "trunc (v / 100) = \<lfloor>v / 100\<rfloor>" by (simp add: trunc_def)
  have "real_of_int \<lfloor>v / 100\<rfloor> \<le> v / 100" by (rule of_int_floor_le)
  then have "0 \<le> fmod v 100" by (simp add: fmod_def t)
  with t show ?thesis by simp
next
  case False
  then have t: "trunc (v / 100) = \<lceil>v / 100\<rceil>" by (simp add: trunc_def)
  show ?thesis
  proof (cases "v / 100 \<in> \<int>")
    case True
    then obtain k where k: "v / 100 = of_int k" by (auto elim: Ints_cases)
    then have "fmod v 100 = 0" by (simp add: fmod_def t)
    with k t show ?thesis by simp
  next
    case False
    then have "v / 100 \<noteq> real_of_int \<lfloor>v / 100\<rfloor>" by (metis Ints_of_int)
    then have c: "\<lceil>v / 100\<rceil> = \<lfloor>v / 100\<rfloor> + 1" by (simp only: ceiling_altdef if_False)
    have "v / 100 < real_of_int \<lceil>v / 100\<rceil>"
      using False by (metis Ints_of_int le_of_int_ceiling order_less_le)
    then have "fmod v 100 < 0" by (simp add: fmod_def t)
    with c t show ?thesis by simp
  qed
qed

lemma trunc_bound: "\<bar>real_of_int (trunc r)\<bar> \<le> \<bar>r\<bar>"
  by (auto simp: trunc_def)

lemma floor_div_100_exact:
  assumes "\<bar>v\<bar> < 2 ^ 53"
  shows "floor_div_100 (Fin v) = Fin (of_int \<lfloor>v / 100\<rfloor>)"
proof -
  let ?t = "trunc (v / 100)"
  let ?m = "fmod v 100"
  have tb: "\<bar>real_of_int ?t\<bar> \<le> \<bar>v\<bar> / 100" using trunc_bound[of "v / 100"] by simp
  have "\<bar>real_of_int (100 * ?t)\<bar> \<le> \<bar>v\<bar>" using tb by simp
  with assms have "\<bar>real_of_int (100 * ?t)\<bar> < 2 ^ 53" by linarith
  then have b100: "\<bar>100 * ?t\<bar> < 2 ^ 53"
    by (metis of_int_abs of_int_less_iff of_int_numeral of_int_power)
  then have bt: "\<bar>?t\<bar> < 2 ^ 53" and bt1: "\<bar>?t - 1\<bar> < 2 ^ 53"
    by (simp_all add: abs_less_iff)
  have vm: "v - ?m = of_int (100 * ?t)" by (simp add: fmod_def)
  have s: "fsub (Fin v) (Fin ?m) = Fin (of_int (100 * ?t))"
    using round_double_int[OF b100] by (simp add: vm)
  have q: "real_of_int (100 * ?t) / 100 = real_of_int ?t" by simp
  have d0: "div_by (fsub (Fin v) (Fin ?m)) 100 = Fin (of_int ?t)"
    unfolding s div_by.simps q by (rule round_double_int[OF bt])
  have sn: "snap (Fin (of_int k)) = Fin (of_int k)" for k
    by (simp add: round_double_numeral)
  show ?thesis
  proof (cases "?m < 0")
    case True
    then have "floor_div_100 (Fin v) = snap (fsub (Fin (of_int ?t)) (Fin 1))"
      by (simp add: Let_def d0 del: fsub.simps)
    also have "fsub (Fin (of_int ?t)) (Fin 1) = Fin (of_int (?t - 1))"
      using round_double_int[OF bt1] by simp
    also have "snap \<dots> = Fin (of_int (?t - 1))" by (rule sn)
    finally show ?thesis using True trunc_floor_100[of v] by simp
  next
    case False
    then have "floor_div_100 (Fin v) = snap (Fin (of_int ?t))"
      by (simp add: Let_def d0 del: fsub.simps)
    then show ?thesis using False trunc_floor_100[of v] sn by simp
  qed
qed

lemma round_double_posI:
  assumes "0 < x" "2 powi e \<le> x" "x < 2 powi (e + 1)" "- 1022 \<le> e"
    and "round_half_even (x / 2 powi (e - 52)) = m"
    and "real_of_int m * 2 powi (e - 52) < 2 ^ 1024"
  shows "round_double x = Fin (real_of_int m * 2 powi (e - 52))"
proof -
  from floor_log2_eqI[OF assms(1-3)] assms(4) have "max (- 1022) \<lfloor>log 2 x\<rfloor> = e" by simp
  then have "round_pos x = real_of_int m * 2 powi (e - 52)"
    using assms(5) by (simp add: round_pos_def Let_def)
  with assms(1,6) show ?thesis by (simp add: round_double_def)
qed

lemma small_below_overflow: "x < 2 ^ 53 \<Longrightarrow> x < (2::real) ^ 1024"
proof -
  have "(2::real) ^ 53 \<le> 2 ^ 1024" by (rule power_increasing) simp_all
  then show "x < 2 ^ 53 \<Longrightarrow> x < 2 ^ 1024" by linarith
qed

lemma weight_49: "round_double (1 / 49) = Fin (5882252574524729 / 2 ^ 58)"
proof -
  have "round_double (1 / 49) = Fin (real_of_int 5882252574524729 * 2 powi (- 6 - 52))"
  proof (rule round_double_posI)
    show "round_half_even (1 / 49 / 2 powi (- 6 - 52)) = 5882252574524729"
      by (simp add: power_int_minus round_half_even_def)
    show "real_of_int 5882252574524729 * 2 powi (- 6 - 52) < 2 ^ 1024"
      by (rule small_below_overflow) (simp add: power_int_minus)
  qed (simp_all add: power_int_minus)
  then show ?thesis by (simp add: power_int_minus)
qed

lemma amount_49:
  "round_double (2450000 * (5882252574524729 / 2 ^ 58)) = Fin (6871947673599999 / 2 ^ 37)"
proof -
  have "round_double (2450000 * (5882252574524729 / 2 ^ 58)) =
        Fin (real_of_int 6871947673599999 * 2 powi (15 - 52))"
  proof (rule round_double_posI)
    show "round_half_even (2450000 * (5882252574524729 / 2 ^ 58) / 2 powi (15 - 52)) =
          6871947673599999"
      by (simp add: power_int_minus round_half_even_def)
    show "real_of_int 6871947673599999 * 2 powi (15 - 52) < 2 ^ 1024"
      by (rule small_below_overflow) (simp add: power_int_minus)
  qed (simp_all add: power_int_minus)
  then show ?thesis by (simp add: power_int_minus)
qed

lemma quotient_49:
  "round_double (6871947673599999 / 2 ^ 37 / 100) = Fin (8796093022207999 / 2 ^ 44)"
proof -
  have "round_double (6871947673599999 / 2 ^ 37 / 100) =
        Fin (real_of_int 8796093022207999 * 2 powi (8 - 52))"
  proof (rule round_double_posI)
    show "round_half_even (6871947673599999 / 2 ^ 37 / 100 / 2 powi (8 - 52)) =
          8796093022207999"
      by (simp add: power_int_minus round_half_even_def)
    show "real_of_int 8796093022207999 * 2 powi (8 - 52) < 2 ^ 1024"
      by (rule small_below_overflow) (simp add: power_int_minus)
  qed (simp_all add: power_int_minus)
  then show ?thesis by (simp add: power_int_minus)
qed

section \<open>Signs of the float operations\<close>

lemma round_double_sign:
  "0 \<le> x \<Longrightarrow> float_ge_zero (round_double x)"
  "x \<le> 0 \<Longrightarrow> float_le_zero (round_double x)"
  using round_pos_nonneg[of x] round_pos_nonneg[of "- x"]
  by (auto simp: round_double_def)

lemma fmul_sign:
  "a = NaN \<or> float_ge_zero a \<Longrightarrow> b = NaN \<or> float_ge_zero b \<Longrightarrow>
     fmul a b = NaN \<or> float_ge_zero (fmul a b)"
  "a = NaN \<or> float_le_zero a \<Longrightarrow> b = NaN \<or> float_ge_zero b \<Longrightarrow>
     fmul a b = NaN \<or> float_le_zero (fmul a b)"
  by (cases a; cases b; auto intro: round_double_sign simp: mult_nonneg_nonneg mult_nonpos_nonneg)+

lemma div_by_sign:
  "0 < y \<Longrightarrow> a = NaN \<or> float_ge_zero a \<Longrightarrow> div_by a y = NaN \<or> float_ge_zero (div_by a y)"
  "0 < y \<Longrightarrow> a = NaN \<or> float_le_zero a \<Longrightarrow> div_by a y = NaN \<or> float_le_zero (div_by a y)"
  by (cases a; auto intro: round_double_sign simp: divide_nonpos_pos)+

lemma fdiv_sign:
  assumes "fdiv a b = Inr q" "\<not> float_le_zero b"
  shows "a = NaN \<or> float_ge_zero a \<Longrightarrow> q = NaN \<or> float_ge_zero q"
    and "a = NaN \<or> float_le_zero a \<Longrightarrow> q = NaN \<or> float_le_zero q"
proof -
  show "q = NaN \<or> float_ge_zero q" if "a = NaN \<or> float_ge_zero a"
  proof (cases b)
    case (Fin y)
    with assms have "0 < y" "q = div_by a y" by (auto split: if_splits)
    with div_by_sign(1)[OF this(1) that] show ?thesis by simp
  qed (use assms in \<open>cases a; auto\<close>)+
  show "q = NaN \<or> float_le_zero q" if "a = NaN \<or> float_le_zero a"
  proof (cases b)
    case (Fin y)
    with assms have "0 < y" "q = div_by a y" by (auto split: if_splits)
    with div_by_sign(2)[OF this(1) that] show ?thesis by simp
  qed (use assms in \<open>cases a; auto\<close>)+
qed

lemma fsub_one_sign:
  "a = NaN \<or> float_le_zero a \<Longrightarrow> fsub a (Fin 1) = NaN \<or> float_le_zero (fsub a (Fin 1))"
  by (cases a; auto intro: round_double_sign)

lemma snap_sign:
  "a = NaN \<or> float_ge_zero a \<Longrightarrow> snap a = NaN \<or> float_ge_zero (snap a)"
  "a = NaN \<or> float_le_zero a \<Longrightarrow> snap a = NaN \<or> float_le_zero (snap a)"
proof -
  show "snap a = NaN \<or> float_ge_zero (snap a)" if "a = NaN \<or> float_ge_zero a"
  proof (cases a)
    case (Fin r)
    with that have "0 \<le> r" by simp
    then have "0 \<le> \<lfloor>r\<rfloor>" by simp
    then have "float_ge_zero (round_double (real_of_int \<lfloor>r\<rfloor> + 1))"
      by (intro round_double_sign) simp
    with Fin \<open>0 \<le> \<lfloor>r\<rfloor>\<close> show ?thesis by (simp add: Let_def)
  qed (use that in auto)
  show "snap a = NaN \<or> float_le_zero (snap a)" if "a = NaN \<or> float_le_zero a"
  proof (cases a)
    case (Fin r)
    with that have r: "r \<le> 0" by simp
    show ?thesis
    proof (cases "r = 0")
      case True
      with Fin show ?thesis by simp
    next
      case False
      with r have "r < 0" by simp
      then have f: "\<lfloor>r\<rfloor> \<le> - 1" by (simp add: floor_le_iff)
      then have "real_of_int \<lfloor>r\<rfloor> + 1 \<le> 0" by linarith
      then have "float_le_zero (round_double (real_of_int \<lfloor>r\<rfloor> + 1))"
        by (rule round_double_sign)
      moreover from f have "real_of_int \<lfloor>r\<rfloor> \<le> 0" by linarith
      ultimately show ?thesis using Fin False by (simp add: Let_def)
    qed
  qed (use that in auto)
qed

lemma fmod_sign:
  "0 \<le> v \<Longrightarrow> 0 \<le> fmod v 100 \<and> fmod v 100 \<le> v"
  "v \<le> 0 \<Longrightarrow> fmod v 100 \<le> 0 \<and> v \<le> fmod v 100"
proof -
  show "0 \<le> fmod v 100 \<and> fmod v 100 \<le> v" if "0 \<le> v"
  proof -
    from that have t: "trunc (v / 100) = \<lfloor>v / 100\<rfloor>" by (simp add: trunc_def)
    have "real_of_int \<lfloor>v / 100\<rfloor> \<le> v / 100" by (rule of_int_floor_le)
    moreover from that have "0 \<le> real_of_int \<lfloor>v / 100\<rfloor>" by simp
    ultimately show ?thesis by (simp add: fmod_def t)
  qed
  show "fmod v 100 \<le> 0 \<and> v \<le> fmod v 100" if "v \<le> 0"
  proof (cases "v = 0")
    case True
    then show ?thesis by (simp add: fmod_def trunc_def)
  next
    case False
    with that have t: "trunc (v / 100) = \<lceil>v / 100\<rceil>" by (simp add: trunc_def)
    have "v / 100 \<le> real_of_int \<lceil>v / 100\<rceil>" by (rule le_of_int_ceiling)
    then have a: "v \<le> 100 * real_of_int \<lceil>v / 100\<rceil>" by linarith
    from that have "\<lceil>v / 100\<rceil> \<le> 0" by (simp add: ceiling_le_iff)
    then have b: "100 * real_of_int \<lceil>v / 100\<rceil> \<le> 0" by simp
    from a b show ?thesis by (simp add: fmod_def t)
  qed
qed

lemma floor_div_100_sign:
  "a = NaN \<or> float_ge_zero a \<Longrightarrow> floor_div_100 a = NaN \<or> float_ge_zero (floor_div_100 a)"
  "a = NaN \<or> float_le_zero a \<Longrightarrow> floor_div_100 a = NaN \<or> float_le_zero (floor_div_100 a)"
proof -
  show "floor_div_100 a = NaN \<or> float_ge_zero (floor_div_100 a)" if "a = NaN \<or> float_ge_zero a"
  proof (cases a)
    case (Fin v)
    with that have v: "0 \<le> v" by simp
    let ?m = "fmod v 100"
    from fmod_sign(1)[OF v] have m: "0 \<le> ?m" "0 \<le> v - ?m" by simp_all
    have "float_ge_zero (fsub (Fin v) (Fin ?m))" using m(2) by (simp add: round_double_sign)
    then have "div_by (fsub (Fin v) (Fin ?m)) 100 = NaN \<or>
               float_ge_zero (div_by (fsub (Fin v) (Fin ?m)) 100)"
      by (intro div_by_sign) simp_all
    then have "snap (div_by (fsub (Fin v) (Fin ?m)) 100) = NaN \<or>
               float_ge_zero (snap (div_by (fsub (Fin v) (Fin ?m)) 100))"
      by (rule snap_sign)
    with m(1) Fin show ?thesis by (simp add: Let_def del: fsub.simps snap.simps div_by.simps)
  qed (use that in auto)
  show "floor_div_100 a = NaN \<or> float_le_zero (floor_div_100 a)" if "a = NaN \<or> float_le_zero a"
  proof (cases a)
    case (Fin v)
    with that have v: "v \<le> 0" by simp
    let ?m = "fmod v 100"
    let ?d0 = "div_by (fsub (Fin v) (Fin ?m)) 100"
    from fmod_sign(2)[OF v] have m: "v - ?m \<le> 0" by simp
    have "float_le_zero (fsub (Fin v) (Fin ?m))" using m by (simp add: round_double_sign)
    then have d0: "?d0 = NaN \<or> float_le_zero ?d0"
      by (intro div_by_sign) simp_all
    then have d1: "fsub ?d0 (Fin 1) = NaN \<or> float_le_zero (fsub ?d0 (Fin 1))"
      by (rule fsub_one_sign)
    from snap_sign(2)[OF d0] snap_sign(2)[OF d1] Fin show ?thesis
      by (simp add: Let_def del: fsub.simps snap.simps div_by.simps)
  qed (use that in auto)
qed

lemma py_int_sign:
  assumes "py_int a = Inr k"
  shows "a = NaN \<or> float_ge_zero a \<Longrightarrow> 0 \<le> k"
    and "a = NaN \<or> float_le_zero a \<Longrightarrow> k \<le> 0"
  using assms by (cases a; auto simp: trunc_def ceiling_le_iff)+

lemma float_of_int_ge_one:
  assumes "1 \<le> k" "float_of_int k = Inr b"
  shows "\<exists>y. b = Fin y \<and> 1 \<le> y"
proof -
  from assms(1) have "1 \<le> real_of_int k" by simp
  from round_pos_ge_one[OF this] assms show ?thesis
    by (auto simp: float_of_int_def round_double_def split: if_splits)
qed

lemma weight_sign:
  assumes "1 \<le> k"
  shows "float_div_int (Fin 1) k \<noteq> Inl ZeroDivisionError"
    and "float_div_int (Fin 1) k = Inr w \<Longrightarrow> float_ge_zero w"
proof -
  show "float_div_int (Fin 1) k \<noteq> Inl ZeroDivisionError"
  proof (cases "float_of_int k")
    case (Inl e)
    then have "e = OverflowError"
      by (auto simp: float_of_int_def split: pyfloat.splits)
    with Inl show ?thesis by (simp add: float_div_int_def)
  next
    case (Inr b)
    from float_of_int_ge_one[OF assms Inr] Inr show ?thesis
      by (auto simp: float_div_int_def)
  qed
  show "float_ge_zero w" if "float_div_int (Fin 1) k = Inr w"
  proof -
    from that obtain b where b: "float_of_int k = Inr b" "fdiv (Fin 1) b = Inr w"
      by (auto simp: float_div_int_def split: sum.splits)
    from float_of_int_ge_one[OF assms b(1)] obtain y where y: "b = Fin y" "1 \<le> y" by blast
    with b(2) have "w = round_double (1 / y)" by simp
    with y(2) show ?thesis by (simp add: round_double_sign)
  qed
qed

section \<open>The allocation loop\<close>

lemma target_loop_map_of:
  "target_loop w ta prices stocks tps = Inr r \<Longrightarrow>
   map_of r k = (if k \<in> set stocks \<and> valid_price prices k
                 then (case target_entry w ta (price_of prices k) of
                         Inr e \<Rightarrow> Some e | Inl f \<Rightarrow> None)
                 else map_of tps k) \<and>
   (k \<in> set stocks \<and> valid_price prices k \<longrightarrow>
      (\<exists>e. target_entry w ta (price_of prices k) = Inr e))"
proof (induction stocks arbitrary: tps)
  case Nil
  then show ?case by simp
next
  case (Cons s ss)
  show ?case
  proof (cases "valid_price prices s")
    case False
    with Cons.prems have "target_loop w ta prices ss tps = Inr r"
      by (auto simp: valid_price_def split: option.splits)
    from Cons.IH[OF this] False show ?thesis by auto
  next
    case True
    then obtain p where p: "prices_get prices s = Some p" "\<not> float_le_zero p"
      by (auto simp: valid_price_def split: option.splits)
    then have po: "price_of prices s = p" by (simp add: price_of_def)
    from Cons.prems p obtain e where e: "target_entry w ta p = Inr e"
      and r: "target_loop w ta prices ss (AList.update s e tps) = Inr r"
      by (auto split: sum.splits)
    from Cons.IH[OF r] True e po show ?thesis
      by (auto simp: update_conv')
  qed
qed

lemma target_loop_distinct:
  "target_loop w ta prices stocks tps = Inr r \<Longrightarrow> distinct (map fst tps) \<Longrightarrow> distinct (map fst r)"
proof (induction stocks arbitrary: tps)
  case Nil
  then show ?case by simp
next
  case (Cons s ss)
  then show ?case
    by (auto simp: distinct_update split: option.splits if_splits sum.splits)
qed

lemma target_loop_keys:
  "target_loop w ta prices stocks tps = Inr r \<Longrightarrow>
   fst ` set r = fst ` set tps \<union> {k \<in> set stocks. valid_price prices k}"
proof (induction stocks arbitrary: tps)
  case Nil
  then show ?case by simp
next
  case (Cons s ss)
  then show ?case
    by (auto simp: valid_price_def dom_update split: option.splits if_splits sum.splits)
qed

lemma target_loop_returns:
  "(\<And>s. s \<in> set stocks \<Longrightarrow> valid_price prices s \<Longrightarrow>
       \<exists>e. target_entry w ta (price_of prices s) = Inr e) \<Longrightarrow>
   \<exists>r. target_loop w ta prices stocks tps = Inr r"
proof (induction stocks arbitrary: tps)
  case Nil
  then show ?case by simp
next
  case (Cons s ss)
  have ih: "\<exists>r. target_loop w ta prices ss tps' = Inr r" for tps'
    using Cons.prems by (intro Cons.IH) auto
  show ?case
  proof (cases "valid_price prices s")
    case False
    with ih show ?thesis by (auto simp: valid_price_def split: option.splits)
  next
    case True
    then obtain p where p: "prices_get prices s = Some p" "\<not> float_le_zero p"
      by (auto simp: valid_price_def split: option.splits)
    then have po: "price_of prices s = p" by (simp add: price_of_def)
    from Cons.prems[of s] True po obtain e where "target_entry w ta p = Inr e" by auto
    with p ih show ?thesis by simp
  qed
qed

lemma target_loop_failure:
  "target_loop w ta prices stocks tps = Inl f \<Longrightarrow>
   \<exists>s \<in> set stocks. valid_price prices s \<and> target_entry w ta (price_of prices s) = Inl f"
proof (induction stocks arbitrary: tps)
  case Nil
  then show ?case by simp
next
  case (Cons s ss)
  show ?case
  proof (cases "valid_price prices s")
    case False
    with Cons.prems have "target_loop w ta prices ss tps = Inl f"
      by (auto simp: valid_price_def split: option.splits)
    from Cons.IH[OF this] show ?thesis by auto
  next
    case True
    then obtain p where p: "prices_get prices s = Some p" "\<not> float_le_zero p"
      by (auto simp: valid_price_def split: option.splits)
    then have po: "price_of prices s = p" by (simp add: price_of_def)
    show ?thesis
    proof (cases "target_entry w ta p")
      case (Inl f')
      with Cons.prems p have "f' = f" by simp
      with Inl True po show ?thesis by auto
    next
      case (Inr e)
      with Cons.prems p have "target_loop w ta prices ss (AList.update s e tps) = Inl f"
        by simp
      from Cons.IH[OF this] show ?thesis by auto
    qed
  qed
qed

lemma target_entry_Inr:
  assumes "target_entry w ta p = Inr e"
  shows "\<exists>q k. fdiv ta p = Inr q \<and> py_int (floor_div_100 q) = Inr k \<and>
           int_mul_float (k * 100) p = Inr (Fin (tp_actual_amount e)) \<and>
           w = Fin (tp_weight e) \<and> ta = Fin (tp_target_amount e) \<and> p = Fin (tp_price e) \<and>
           tp_target_qty e = k * 100"
  using assms
  by (auto simp: target_entry_def store_entry_def Let_def split: sum.splits pyfloat.splits)

lemma target_entry_no_zero_division:
  assumes "\<not> float_le_zero p"
  shows "target_entry w ta p \<noteq> Inl (Raised ZeroDivisionError)"
proof -
  from assms have "fdiv ta p \<noteq> Inl ZeroDivisionError"
    by (cases ta; cases p; auto)
  moreover have "py_int x \<noteq> Inl ZeroDivisionError" for x by (cases x) auto
  moreover have "int_mul_float k p \<noteq> Inl ZeroDivisionError" for k
    by (auto simp: int_mul_float_def float_of_int_def split: pyfloat.splits)
  moreover have "fdiv ta p = Inl e \<Longrightarrow> e = ZeroDivisionError" for e
    by (cases ta; cases p; auto split: if_splits)
  ultimately show ?thesis
    by (auto simp: target_entry_def store_entry_def Let_def split: sum.splits pyfloat.splits)
qed

lemma calculate_target_positions_Inr:
  assumes "calculate_target_positions A stocks prices = Inr tps"
  shows "distinct (map fst tps)"
    and "fst ` set tps = {s \<in> set stocks. valid_price prices s}"
    and "map_of tps k = None \<longleftrightarrow> \<not> (k \<in> set stocks \<and> valid_price prices k)"
    and "(s, e) \<in> set tps \<Longrightarrow>
           s \<in> set stocks \<and> valid_price prices s \<and>
           (\<exists>w. float_div_int (Fin 1) (int (length stocks)) = Inr w \<and>
                target_entry w (fmul A w) (price_of prices s) = Inr e)"
proof -
  have all: "distinct (map fst tps) \<and>
    fst ` set tps = {s \<in> set stocks. valid_price prices s} \<and>
    (\<forall>k. map_of tps k = None \<longleftrightarrow> \<not> (k \<in> set stocks \<and> valid_price prices k)) \<and>
    (\<forall>s e. (s, e) \<in> set tps \<longrightarrow>
           s \<in> set stocks \<and> valid_price prices s \<and>
           (\<exists>w. float_div_int (Fin 1) (int (length stocks)) = Inr w \<and>
                target_entry w (fmul A w) (price_of prices s) = Inr e))"
  proof (cases "stocks = []")
    case True
    with assms show ?thesis by (simp add: calculate_target_positions_def)
  next
    case False
    with assms obtain w where w: "float_div_int (Fin 1) (int (length stocks)) = Inr w"
      and r: "target_loop w (fmul A w) prices stocks [] = Inr tps"
      by (auto simp: calculate_target_positions_def Let_def split: sum.splits)
    have d: "distinct (map fst tps)" using target_loop_distinct[OF r] by simp
    have k: "fst ` set tps = {s \<in> set stocks. valid_price prices s}"
      using target_loop_keys[OF r] by simp
    note m = target_loop_map_of[OF r]
    have n: "map_of tps k = None \<longleftrightarrow> \<not> (k \<in> set stocks \<and> valid_price prices k)" for k
      using m[of k] by (auto split: sum.splits)
    have e: "s \<in> set stocks \<and> valid_price prices s \<and>
           (\<exists>w. float_div_int (Fin 1) (int (length stocks)) = Inr w \<and>
                target_entry w (fmul A w) (price_of prices s) = Inr e)"
      if "(s, e) \<in> set tps" for s e
    proof -
      from that d have "map_of tps s = Some e" by simp
      with m[of s] w show ?thesis by (auto split: if_splits sum.splits)
    qed
    from d k n e show ?thesis by blast
  qed
  from all show "distinct (map fst tps)"
    and "fst ` set tps = {s \<in> set stocks. valid_price prices s}"
    and "map_of tps k = None \<longleftrightarrow> \<not> (k \<in> set stocks \<and> valid_price prices k)"
    and "(s, e) \<in> set tps \<Longrightarrow>
           s \<in> set stocks \<and> valid_price prices s \<and>
           (\<exists>w. float_div_int (Fin 1) (int (length stocks)) = Inr w \<and>
                target_entry w (fmul A w) (price_of prices s) = Inr e)"
    by blast+
qed

lemma calculate_target_positions_no_zero_division:
  "calculate_target_positions A stocks prices \<noteq> Inl (Raised ZeroDivisionError)"
proof (cases "stocks = []")
  case True
  then show ?thesis by (simp add: calculate_target_positions_def)
next
  case False
  then have n: "1 \<le> int (length stocks)" by (cases stocks) simp_all
  show ?thesis
  proof (cases "float_div_int (Fin 1) (int (length stocks))")
    case (Inl e)
    with weight_sign(1)[OF n] have "e \<noteq> ZeroDivisionError" by auto
    with Inl False show ?thesis by (simp add: calculate_target_positions_def)
  next
    case (Inr w)
    show ?thesis
    proof
      assume "calculate_target_positions A stocks prices = Inl (Raised ZeroDivisionError)"
      with Inr False
      have "target_loop w (fmul A w) prices stocks [] = Inl (Raised ZeroDivisionError)"
        by (simp add: calculate_target_positions_def Let_def)
      from target_loop_failure[OF this] obtain s where s: "valid_price prices s"
        and f: "target_entry w (fmul A w) (price_of prices s) = Inl (Raised ZeroDivisionError)"
        by blast
      from s have "\<not> float_le_zero (price_of prices s)"
        by (auto simp: valid_price_def price_of_def split: option.splits)
      from target_entry_no_zero_division[OF this] f show False by blast
    qed
  qed
qed

lemma sum_list_all_equal:
  fixes c :: real
  shows "(\<And>x. x \<in> set xs \<Longrightarrow> f x = c) \<Longrightarrow> sum_list (map f xs) = real (length xs) * c"
  by (induction xs) (simp_all add: algebra_simps)

lemma py_int_floor_div_100:
  assumes "\<bar>v\<bar> < 2 ^ 53"
  shows "py_int (floor_div_100 (Fin v)) = Inr \<lfloor>v / 100\<rfloor>"
  by (simp add: floor_div_100_exact[OF assms] del: floor_div_100.simps(1))

lemmas eval_simps = calculate_target_positions_def float_div_int_def float_of_int_def
  int_mul_float_def target_entry_def store_entry_def prices_get_def Let_def
  round_double_numeral round_double_half py_int_floor_div_100

text \<open>
  A list whose instruments all have the price \<open>p\<close>: the function returns as soon as the
  quotient and the amount are finite, with the same entry for every instrument.
\<close>

lemma uniform_price_allocation:
  assumes ne: "stocks \<noteq> []" and p: "0 < p"
    and up: "\<forall>s \<in> set stocks. prices_get prices s = Some (Fin p)"
    and w: "float_div_int (Fin 1) (int (length stocks)) = Inr (Fin w)"
    and ta: "fmul (Fin A) (Fin w) = Fin ta"
    and q: "fdiv (Fin ta) (Fin p) = Inr (Fin q)" "\<bar>q\<bar> < 2 ^ 53"
    and a: "int_mul_float (\<lfloor>q / 100\<rfloor> * 100) (Fin p) = Inr (Fin a)"
  shows "\<exists>tps. calculate_target_positions (Fin A) stocks prices = Inr tps \<and>
     distinct (map fst tps) \<and> fst ` set tps = set stocks \<and>
     (\<forall>s e. (s, e) \<in> set tps \<longrightarrow>
        e = \<lparr>tp_weight = w, tp_target_amount = ta, tp_target_qty = \<lfloor>q / 100\<rfloor> * 100,
             tp_actual_amount = a, tp_price = p\<rparr>)"
proof -
  let ?e = "\<lparr>tp_weight = w, tp_target_amount = ta, tp_target_qty = \<lfloor>q / 100\<rfloor> * 100,
             tp_actual_amount = a, tp_price = p\<rparr>"
  have valid: "valid_price prices s" and po: "price_of prices s = Fin p"
    if "s \<in> set stocks" for s
    using up p that by (simp_all add: valid_price_def price_of_def)
  have entry: "target_entry (Fin w) (Fin ta) (Fin p) = Inr ?e"
    using q a py_int_floor_div_100[OF q(2)]
    by (simp add: target_entry_def store_entry_def Let_def del: floor_div_100.simps(1))
  have "\<exists>r. target_loop (Fin w) (Fin ta) prices stocks [] = Inr r"
    by (rule target_loop_returns) (use entry po in auto)
  then obtain tps where r: "target_loop (Fin w) (Fin ta) prices stocks [] = Inr tps" ..
  with ne w ta have c: "calculate_target_positions (Fin A) stocks prices = Inr tps"
    by (simp add: calculate_target_positions_def Let_def)
  have d: "distinct (map fst tps)" by (rule calculate_target_positions_Inr(1)[OF c])
  have keys: "fst ` set tps = set stocks"
    using calculate_target_positions_Inr(2)[OF c] valid by auto
  have ent: "e = ?e" if "(s, e) \<in> set tps" for s e
  proof -
    from that d have "map_of tps s = Some e" by simp
    moreover from that keys have "s \<in> set stocks" by force
    ultimately show ?thesis
      using target_loop_map_of[OF r, of s] valid po entry by simp
  qed
  from c d keys ent show ?thesis by blast
qed

text \<open>
  Rounding at work: 2,450,000 over 49 instruments at price 100. The weight \<open>1.0 / 49\<close>
  is rounded, the target amount is 49999.99999999999 and the quotient 499.99999999999994,
  so every instrument gets 400, where \<open>floor(2450000 / 49 / 100 / 100) * 100\<close> is 500.
\<close>

lemma rounded_share_example:
  assumes "length stocks = 49" "\<forall>s \<in> set stocks. prices_get prices s = Some (Fin 100)"
  shows "\<exists>tps. calculate_target_positions (Fin 2450000) stocks prices = Inr tps \<and>
     fst ` set tps = set stocks \<and>
     (\<forall>s e. (s, e) \<in> set tps \<longrightarrow> tp_target_qty e = 400) \<and>
     \<lfloor>(2450000::real) / 49 / 100 / 100\<rfloor> * 100 = 500"
proof -
  from assms(1) have ne: "stocks \<noteq> []" by auto
  have w: "float_div_int (Fin 1) (int (length stocks)) = Inr (Fin (5882252574524729 / 2 ^ 58))"
    using weight_49 by (simp add: assms(1) float_div_int_def float_of_int_def round_double_numeral)
  have ta: "fmul (Fin 2450000) (Fin (5882252574524729 / 2 ^ 58)) =
            Fin (6871947673599999 / 2 ^ 37)"
    using amount_49 by simp
  have q: "fdiv (Fin (6871947673599999 / 2 ^ 37)) (Fin 100) =
           Inr (Fin (8796093022207999 / 2 ^ 44))"
    using quotient_49 by simp
  have b: "\<bar>8796093022207999 / 2 ^ 44 :: real\<bar> < 2 ^ 53" by simp
  have f: "\<lfloor>8796093022207999 / 2 ^ 44 / 100 :: real\<rfloor> = 4" by simp
  have a: "int_mul_float (\<lfloor>8796093022207999 / 2 ^ 44 / 100 :: real\<rfloor> * 100) (Fin 100) =
           Inr (Fin 40000)"
    unfolding f by (simp add: int_mul_float_def float_of_int_def round_double_numeral)
  from uniform_price_allocation[OF ne _ assms(2) w ta q b a] f
  show ?thesis by fastforce
qed

section \<open>The rebalancing loops and the plan loop\<close>

lemma rebalance_targets_map_of:
  "distinct (map fst t) \<Longrightarrow>
   map_of (rebalance_targets t c rb) k =
     (case map_of t k of Some tg \<Rightarrow> Some (target_action c k tg) | None \<Rightarrow> map_of rb k)"
proof (induction t arbitrary: rb)
  case Nil
  then show ?case by simp
next
  case (Cons x t)
  obtain s tg where x: "x = (s, tg)" by (cases x)
  from Cons.prems x have s: "map_of t s = None" and d: "distinct (map fst t)"
    by (auto simp: map_of_eq_None_iff)
  show ?case
    using Cons.IH[OF d] s
    by (auto simp: x Let_def target_action_def update_conv' split: option.splits)
qed

lemma rebalance_targets_distinct:
  "distinct (map fst rb) \<Longrightarrow> distinct (map fst (rebalance_targets t c rb))"
  by (induction t arbitrary: rb) (auto simp: Let_def distinct_update)

lemma rebalance_current_map_of:
  "distinct (map fst c) \<Longrightarrow>
   map_of (rebalance_current c t rb) k =
     (case map_of c k of
        Some h \<Rightarrow> if map_of t k = None then Some (liquidation h) else map_of rb k
      | None \<Rightarrow> map_of rb k)"
proof (induction c arbitrary: rb)
  case Nil
  then show ?case by simp
next
  case (Cons x c)
  obtain s h where x: "x = (s, h)" by (cases x)
  from Cons.prems x have s: "map_of c s = None" and d: "distinct (map fst c)"
    by (auto simp: map_of_eq_None_iff)
  show ?case
    using Cons.IH[OF d] s
    by (auto simp: x liquidation_def update_conv' split: option.splits)
qed

lemma rebalance_current_distinct:
  "distinct (map fst rb) \<Longrightarrow> distinct (map fst (rebalance_current c t rb))"
  by (induction c arbitrary: rb) (auto simp: distinct_update)

lemma calculate_rebalancing_distinct:
  "distinct (map fst (calculate_rebalancing t c))"
  by (simp add: calculate_rebalancing_def rebalance_current_distinct rebalance_targets_distinct)

lemma calculate_rebalancing_map_of:
  assumes "distinct (map fst t)" "distinct (map fst c)"
  shows "map_of (calculate_rebalancing t c) k =
     (case map_of t k of
        Some tg \<Rightarrow> Some (target_action c k tg)
      | None \<Rightarrow> (case map_of c k of Some h \<Rightarrow> Some (liquidation h) | None \<Rightarrow> None))"
  using assms
  by (simp add: calculate_rebalancing_def rebalance_current_map_of rebalance_targets_map_of
      split: option.splits)

text \<open>Without assuming distinct target keys: a key that is not a target.\<close>

lemma rebalance_targets_other:
  "k \<notin> fst ` set t \<Longrightarrow> map_of (rebalance_targets t c rb) k = map_of rb k"
  by (induction t arbitrary: rb) (auto simp: Let_def update_conv')

lemma calculate_rebalancing_liquidation:
  assumes "distinct (map fst c)" "map_of c k = Some h" "map_of t k = None"
  shows "map_of (calculate_rebalancing t c) k = Some (liquidation h)"
proof -
  from assms(3) have "k \<notin> fst ` set t" by (simp add: map_of_eq_None_iff)
  then show ?thesis
    using assms
    by (simp add: calculate_rebalancing_def rebalance_current_map_of rebalance_targets_other)
qed

lemma plan_loop_char:
  "plan_loop rb buys sells holds =
     (buys @ map (\<lambda>(k, i). order_of k i) (filter (\<lambda>(k, i). rb_action i = Buy) rb),
      sells @ map (\<lambda>(k, i). order_of k i) (filter (\<lambda>(k, i). rb_action i = Sell) rb),
      holds @ map (\<lambda>(k, i). hold_of k i) (filter (\<lambda>(k, i). rb_action i = NoAction) rb))"
proof (induction rb arbitrary: buys sells holds)
  case Nil
  then show ?case by simp
next
  case (Cons x rb)
  obtain k i where x: "x = (k, i)" by (cases x)
  show ?case
    by (cases "rb_action i") (simp_all add: x Cons.IH order_of_def hold_of_def)
qed

lemma buy_list_char:
  "buy_list (generate_trading_plan rb cash) =
     map (\<lambda>(k, i). order_of k i) (filter (\<lambda>(k, i). rb_action i = Buy) rb)"
  by (simp add: generate_trading_plan_def plan_loop_char Let_def)

lemma sell_list_char:
  "sell_list (generate_trading_plan rb cash) =
     map (\<lambda>(k, i). order_of k i) (filter (\<lambda>(k, i). rb_action i = Sell) rb)"
  by (simp add: generate_trading_plan_def plan_loop_char Let_def)

lemma no_action_list_char:
  "no_action_list (generate_trading_plan rb cash) =
     map (\<lambda>(k, i). hold_of k i) (filter (\<lambda>(k, i). rb_action i = NoAction) rb)"
  by (simp add: generate_trading_plan_def plan_loop_char Let_def)

lemma buy_stocks_char:
  "buy_stocks (generate_trading_plan rb cash) =
     map fst (filter (\<lambda>(k, i). rb_action i = Buy) rb)"
  by (simp add: buy_stocks_def buy_list_char order_of_def case_prod_beta comp_def)

lemma sell_stocks_char:
  "sell_stocks (generate_trading_plan rb cash) =
     map fst (filter (\<lambda>(k, i). rb_action i = Sell) rb)"
  by (simp add: sell_stocks_def sell_list_char order_of_def case_prod_beta comp_def)

lemma hold_stocks_char:
  "hold_stocks (generate_trading_plan rb cash) =
     map fst (filter (\<lambda>(k, i). rb_action i = NoAction) rb)"
  by (simp add: hold_stocks_def no_action_list_char hold_of_def case_prod_beta comp_def)

lemma key_in_filtered:
  assumes "distinct (map fst rb)" "map_of rb k = Some i"
  shows "k \<in> set (map fst (filter (\<lambda>(k, i). P i) rb)) \<longleftrightarrow> P i"
proof
  assume "k \<in> set (map fst (filter (\<lambda>(k, i). P i) rb))"
  then obtain j where j: "(k, j) \<in> set rb" "P j" by auto
  with assms(1) have "map_of rb k = Some j" by simp
  with assms(2) j show "P i" by simp
next
  assume "P i"
  moreover from assms(2) have "(k, i) \<in> set rb" by (rule map_of_SomeD)
  ultimately show "k \<in> set (map fst (filter (\<lambda>(k, i). P i) rb))" by force
qed

lemma py_sum_sum_list: "py_sum xs = sum_list xs"
proof -
  have "foldl (+) a xs = a + sum_list xs" for a :: real
    by (induction xs arbitrary: a) (simp_all add: algebra_simps)
  from this[of 0] show ?thesis by (simp add: py_sum_def)
qed

lemma filtered_keys_partition:
  "distinct (map fst rb) \<Longrightarrow>
   distinct (map fst (filter (\<lambda>(k, i). rb_action i = Buy) rb) @
             map fst (filter (\<lambda>(k, i). rb_action i = Sell) rb) @
             map fst (filter (\<lambda>(k, i). rb_action i = NoAction) rb))"
  by (induction rb) auto

lemma filtered_keys_cover:
  "set (map fst (filter (\<lambda>(k, i). rb_action i = Buy) rb) @
        map fst (filter (\<lambda>(k, i). rb_action i = Sell) rb) @
        map fst (filter (\<lambda>(k, i). rb_action i = NoAction) rb)) = fst ` set rb"
proof -
  have "rb_action i = Buy \<or> rb_action i = Sell \<or> rb_action i = NoAction" for i
    by (cases "rb_action i") simp_all
  then show ?thesis by force
qed

lemma plan_membership:
  assumes "distinct (map fst rb)" "map_of rb k = Some i"
  shows "k \<in> set (buy_stocks (generate_trading_plan rb cash)) \<longleftrightarrow> rb_action i = Buy"
    and "k \<in> set (sell_stocks (generate_trading_plan rb cash)) \<longleftrightarrow> rb_action i = Sell"
    and "k \<in> set (hold_stocks (generate_trading_plan rb cash)) \<longleftrightarrow> rb_action i = NoAction"
  using key_in_filtered[OF assms, of "\<lambda>i. rb_action i = Buy"]
    key_in_filtered[OF assms, of "\<lambda>i. rb_action i = Sell"]
    key_in_filtered[OF assms, of "\<lambda>i. rb_action i = NoAction"]
  by (simp_all only: buy_stocks_char sell_stocks_char hold_stocks_char)

lemma sell_list_member:
  assumes "map_of rb k = Some i" "rb_action i = Sell"
  shows "order_of k i \<in> set (sell_list (generate_trading_plan rb cash))"
proof -
  from assms(1) have "(k, i) \<in> set rb" by (rule map_of_SomeD)
  with assms(2) show ?thesis unfolding sell_list_char by force
qed

lemma amount_of_order:
  "e \<in> set (map (\<lambda>(k, i). order_of k i) xs) \<Longrightarrow>
   o_amount e = real_of_int (o_quantity e) * o_price e"
  by (auto simp: order_of_def)

lemma rebalance_targets_keys:
  "distinct (map fst t) \<Longrightarrow> set (map fst t) \<inter> set (map fst rb) = {} \<Longrightarrow>
   map fst (rebalance_targets t c rb) = map fst rb @ map fst t"
proof (induction t arbitrary: rb)
  case Nil
  then show ?case by simp
next
  case (Cons x t)
  obtain s tg where x: "x = (s, tg)" by (cases x)
  let ?rb = "AList.update s (target_action c s tg) rb"
  from Cons.prems x have new: "s \<notin> set (map fst rb)" and d: "distinct (map fst t)"
    and s: "s \<notin> set (map fst t)" by auto
  from new have keys: "map fst ?rb = map fst rb @ [s]" by (simp add: update_keys)
  with Cons.prems s have "set (map fst t) \<inter> set (map fst ?rb) = {}" by auto
  from Cons.IH[OF d this] keys
  have "map fst (rebalance_targets t c ?rb) = map fst rb @ s # map fst t" by simp
  then show ?case by (simp add: x Let_def target_action_def)
qed

lemma rebalance_current_keys:
  "distinct (map fst c) \<Longrightarrow>
   \<forall>s \<in> set (map fst c). map_of t s = None \<longrightarrow> s \<notin> set (map fst rb) \<Longrightarrow>
   map fst (rebalance_current c t rb) = map fst rb @ filter (\<lambda>s. map_of t s = None) (map fst c)"
proof (induction c arbitrary: rb)
  case Nil
  then show ?case by simp
next
  case (Cons x c)
  obtain s h where x: "x = (s, h)" by (cases x)
  from Cons.prems x have d: "distinct (map fst c)" and s: "s \<notin> set (map fst c)" by auto
  show ?case
  proof (cases "map_of t s = None")
    case True
    let ?rb = "AList.update s (liquidation h) rb"
    from True Cons.prems(2) x have "s \<notin> set (map fst rb)" by simp
    then have keys: "map fst ?rb = map fst rb @ [s]" by (simp add: update_keys)
    with Cons.prems(2) s
    have "\<forall>s \<in> set (map fst c). map_of t s = None \<longrightarrow> s \<notin> set (map fst ?rb)" by auto
    from Cons.IH[OF d this] keys True show ?thesis
      by (simp add: x liquidation_def)
  next
    case False
    from Cons.prems(2)
    have "\<forall>s \<in> set (map fst c). map_of t s = None \<longrightarrow> s \<notin> set (map fst rb)" by simp
    from Cons.IH[OF d this] False show ?thesis by (auto simp: x)
  qed
qed

lemma calculate_rebalancing_keys:
  assumes "distinct (map fst t)" "distinct (map fst c)"
  shows "map fst (calculate_rebalancing t c) =
           map fst t @ filter (\<lambda>s. map_of t s = None) (map fst c)"
proof -
  have k1: "map fst (rebalance_targets t c []) = map fst t"
    using rebalance_targets_keys[OF assms(1), of "[]" c] by simp
  have "\<forall>s \<in> set (map fst c). map_of t s = None \<longrightarrow>
          s \<notin> set (map fst (rebalance_targets t c []))"
    unfolding k1 by (simp add: map_of_eq_None_iff)
  from rebalance_current_keys[OF assms(2) this] k1 show ?thesis
    by (simp add: calculate_rebalancing_def)
qed

section \<open>The selection reader on plain text\<close>

text \<open>
  A text without commas whose lines are below the field limit never raises in the reader.
  Its first line becomes the only field name, and unless that line is one of the three
  column names no row has a value for them: nothing is appended and the line-oriented
  block is not run.
\<close>

lemma split_on_no_sep: "sep \<notin> set l \<Longrightarrow> split_on sep l = [l]"
  by (induction l) auto

lemma csv_row_plain:
  assumes "CHR '','' \<notin> set l" "length l \<le> field_size_limit"
  shows "csv_row l = Inr (if l = [] then [] else [l])"
  using assms by (simp add: csv_row_def split_on_no_sep)

lemma csv_loop_plain:
  assumes "\<And>l. l \<in> set rest \<Longrightarrow> CHR '','' \<notin> set l \<and> length l \<le> field_size_limit"
    and "set fieldnames \<inter> {''stock_code'', ''instrument'', ''code''} = {}"
    and "length fieldnames \<le> 1"
  shows "csv_loop fieldnames rest stocks = Inr stocks"
  using assms(1)
proof (induction rest)
  case Nil
  then show ?case by simp
next
  case (Cons l rest)
  from Cons.prems have r: "csv_row l = Inr (if l = [] then [] else [l])"
    by (intro csv_row_plain) simp_all
  have ih: "csv_loop fieldnames rest stocks = Inr stocks"
    using Cons.prems by (intro Cons.IH) simp
  have get: "row_get (dict_row fieldnames [l]) key = None"
    if "key \<in> {''stock_code'', ''instrument'', ''code''}" for key
  proof (cases fieldnames)
    case Nil
    then show ?thesis by (simp add: dict_row_def row_get_def)
  next
    case (Cons h hs)
    with assms(3) have hs: "hs = []" by simp
    from Cons assms(2) that have "h \<noteq> key" by auto
    with Cons hs show ?thesis by (simp add: dict_row_def row_get_def)
  qed
  show ?case
  proof (cases "l = []")
    case True
    with r ih show ?thesis by simp
  next
    case False
    with r ih get show ?thesis by (simp add: py_or_def Let_def)
  qed
qed

lemma plain_text_never_parsed_by_lines:
  assumes "in_model text"
    and "\<And>l. l \<in> set (file_lines text) \<Longrightarrow>
            CHR '','' \<notin> set l \<and> length l \<le> field_size_limit"
    and "\<And>l. l \<in> set (file_lines text) \<Longrightarrow>
            l \<notin> {''stock_code'', ''instrument'', ''code''}"
  shows "read_selection_result (Some text) = Returned []"
proof (cases "file_lines text")
  case Nil
  with assms(1) show ?thesis by (simp add: read_selection_result_def try_csv_def)
next
  case (Cons header rest)
  from Cons assms(2) have h: "csv_row header = Inr (if header = [] then [] else [header])"
    by (intro csv_row_plain) simp_all
  from Cons assms(3) have n: "header \<notin> {''stock_code'', ''instrument'', ''code''}" by simp
  have "csv_loop (if header = [] then [] else [header]) rest [] = Inr []"
  proof (rule csv_loop_plain)
    show "CHR '','' \<notin> set l \<and> length l \<le> field_size_limit" if "l \<in> set rest" for l
      using that Cons assms(2) by simp
    show "set (if header = [] then [] else [header]) \<inter>
            {''stock_code'', ''instrument'', ''code''} = {}"
      using n by auto
    show "length (if header = [] then [] else [header]) \<le> 1" by simp
  qed
  with Cons h assms(1) show ?thesis
    by (simp add: read_selection_result_def try_csv_def)
qed

section \<open>Prices that are skipped, and prices that are not numbers\<close>

lemma guarded_price_is_liquidated:
  assumes "s \<in> set stocks"
    and "prices_get prices s = None \<or> (\<exists>p. prices_get prices s = Some p \<and> float_le_zero p)"
    and "calculate_target_positions A stocks prices = Inr tps"
    and "distinct (map fst current)" "map_of current s = Some h"
  shows "map_of tps s = None \<and>
         map_of (calculate_rebalancing tps current) s =
           Some \<lparr>rb_target_qty = 0, rb_current_qty = quantity h, rb_diff = - quantity h,
                 rb_action = Sell, rb_action_qty = quantity h, rb_price = current_price h\<rparr> \<and>
         s \<in> set (sell_stocks (generate_trading_plan (calculate_rebalancing tps current) cash)) \<and>
         s \<notin> set (hold_stocks (generate_trading_plan (calculate_rebalancing tps current) cash))"
proof -
  from assms(2) have nv: "\<not> valid_price prices s"
    by (auto simp: valid_price_def)
  with calculate_target_positions_Inr(3)[OF assms(3), of s]
  have none: "map_of tps s = None" by simp
  let ?rb = "calculate_rebalancing tps current"
  have m: "map_of ?rb s = Some (liquidation h)"
    using assms(4,5) none by (rule calculate_rebalancing_liquidation)
  have a: "rb_action (liquidation h) = Sell" by (simp add: liquidation_def)
  have d: "distinct (map fst ?rb)" by (rule calculate_rebalancing_distinct)
  have "s \<in> set (sell_stocks (generate_trading_plan ?rb cash))"
    using plan_membership(2)[OF d m, of cash] a by simp
  moreover have "s \<notin> set (hold_stocks (generate_trading_plan ?rb cash))"
    using plan_membership(3)[OF d m, of cash] a by simp
  ultimately show ?thesis
    using none m by (simp add: liquidation_def)
qed

lemma nan_price_never_returns:
  assumes "s \<in> set stocks" "prices_get prices s = Some NaN"
  shows "calculate_target_positions A stocks prices \<noteq> Inr tps"
proof
  assume r: "calculate_target_positions A stocks prices = Inr tps"
  from assms(2) have v: "valid_price prices s" and po: "price_of prices s = NaN"
    by (simp_all add: valid_price_def price_of_def)
  with assms(1) calculate_target_positions_Inr(2)[OF r] have "s \<in> fst ` set tps" by simp
  then obtain e where "(s, e) \<in> set tps" by auto
  from calculate_target_positions_Inr(4)[OF r this] po obtain w
    where "target_entry w (fmul A w) NaN = Inr e" by auto
  from target_entry_Inr[OF this] show False by auto
qed

section \<open>Claims about calculate\_target\_positions\<close>

text \<open>
  Claim C2, as the code has it. An empty instrument list gives the empty allocation, and
  no call raises \<open>ZeroDivisionError\<close>: the empty list is answered before the division by
  its length, and a price of zero is skipped. In every allocation that is returned, every
  target quantity is a multiple of 100; it is non-negative when total assets are
  non-negative, 0 when they are 0, and never positive when they are negative.
\<close>

theorem target_qty_lot_multiple:
  "calculate_target_positions A [] prices = Inr [] \<and>
   calculate_target_positions A stocks prices \<noteq> Inl (Raised ZeroDivisionError) \<and>
   (\<forall>tps. calculate_target_positions A stocks prices = Inr tps \<longrightarrow>
      (\<forall>(s, e) \<in> set tps.
         100 dvd tp_target_qty e \<and>
         (float_ge_zero A \<longrightarrow> 0 \<le> tp_target_qty e) \<and>
         (A = Fin 0 \<longrightarrow> tp_target_qty e = 0) \<and>
         (float_le_zero A \<longrightarrow> tp_target_qty e \<le> 0)))"
proof -
  have empty: "calculate_target_positions A [] prices = Inr []"
    by (simp add: calculate_target_positions_def)
  have q: "100 dvd tp_target_qty e \<and>
         (float_ge_zero A \<longrightarrow> 0 \<le> tp_target_qty e) \<and>
         (A = Fin 0 \<longrightarrow> tp_target_qty e = 0) \<and>
         (float_le_zero A \<longrightarrow> tp_target_qty e \<le> 0)"
    if r: "calculate_target_positions A stocks prices = Inr tps" and m: "(s, e) \<in> set tps"
    for tps s e
  proof -
    from calculate_target_positions_Inr(4)[OF r m] obtain w
      where s: "s \<in> set stocks" and v: "valid_price prices s"
        and w: "float_div_int (Fin 1) (int (length stocks)) = Inr w"
        and e: "target_entry w (fmul A w) (price_of prices s) = Inr e"
      by blast
    from s have n: "1 \<le> int (length stocks)" by (cases stocks) simp_all
    from weight_sign(2)[OF n w] have w0: "w = NaN \<or> float_ge_zero w" by simp
    from v have p: "\<not> float_le_zero (price_of prices s)"
      by (auto simp: valid_price_def price_of_def split: option.splits)
    from target_entry_Inr[OF e] obtain q k
      where d: "fdiv (fmul A w) (price_of prices s) = Inr q"
        and i: "py_int (floor_div_100 q) = Inr k"
        and t: "tp_target_qty e = k * 100"
      by blast
    have ge: "0 \<le> k" if "float_ge_zero A"
    proof -
      from that w0 have "fmul A w = NaN \<or> float_ge_zero (fmul A w)"
        by (intro fmul_sign) simp_all
      from fdiv_sign(1)[OF d p this] have "q = NaN \<or> float_ge_zero q" .
      from py_int_sign(1)[OF i floor_div_100_sign(1)[OF this]] show ?thesis .
    qed
    have le: "k \<le> 0" if "float_le_zero A"
    proof -
      from that w0 have "fmul A w = NaN \<or> float_le_zero (fmul A w)"
        by (intro fmul_sign) simp_all
      from fdiv_sign(2)[OF d p this] have "q = NaN \<or> float_le_zero q" .
      from py_int_sign(2)[OF i floor_div_100_sign(2)[OF this]] show ?thesis .
    qed
    from ge le t show ?thesis by auto
  qed
  from empty calculate_target_positions_no_zero_division[of A stocks prices] q
  show ?thesis by blast
qed

text \<open>
  The example of the specification (1,000,000 over two instruments at price 100), and the
  empty list.
\<close>

theorem target_qty_lot_multiple_witness:
  "calculate_target_positions (Fin 1000000) [''A'', ''B'']
     [''A'' \<mapsto> Some (Fin 100), ''B'' \<mapsto> Some (Fin 100)] =
   Inr [(''A'', \<lparr>tp_weight = 1 / 2, tp_target_amount = 500000, tp_target_qty = 5000,
                 tp_actual_amount = 500000, tp_price = 100\<rparr>),
        (''B'', \<lparr>tp_weight = 1 / 2, tp_target_amount = 500000, tp_target_qty = 5000,
                 tp_actual_amount = 500000, tp_price = 100\<rparr>)] \<and>
   (\<exists>tps. calculate_target_positions (Fin 1000000) [''A'', ''B'']
            [''A'' \<mapsto> Some (Fin 100), ''B'' \<mapsto> Some (Fin 100)] = Inr tps \<and>
          (\<forall>(s, e) \<in> set tps. 100 dvd tp_target_qty e \<and> 0 \<le> tp_target_qty e)) \<and>
   calculate_target_positions (Fin 1000000) [] Map.empty = Inr []"
proof -
  have ev: "calculate_target_positions (Fin 1000000) [''A'', ''B'']
     [''A'' \<mapsto> Some (Fin 100), ''B'' \<mapsto> Some (Fin 100)] =
   Inr [(''A'', \<lparr>tp_weight = 1 / 2, tp_target_amount = 500000, tp_target_qty = 5000,
                 tp_actual_amount = 500000, tp_price = 100\<rparr>),
        (''B'', \<lparr>tp_weight = 1 / 2, tp_target_amount = 500000, tp_target_qty = 5000,
                 tp_actual_amount = 500000, tp_price = 100\<rparr>)]"
    by (simp add: eval_simps del: floor_div_100.simps(1))
  have q: "\<exists>tps. calculate_target_positions (Fin 1000000) [''A'', ''B'']
            [''A'' \<mapsto> Some (Fin 100), ''B'' \<mapsto> Some (Fin 100)] = Inr tps \<and>
          (\<forall>(s, e) \<in> set tps. 100 dvd tp_target_qty e \<and> 0 \<le> tp_target_qty e)"
    using ev target_qty_lot_multiple
      [of "Fin 1000000" "[''A'' \<mapsto> Some (Fin 100), ''B'' \<mapsto> Some (Fin 100)]"
          "[''A'', ''B'']"]
    by fastforce
  have e: "calculate_target_positions (Fin 1000000) [] Map.empty = Inr []"
    using target_qty_lot_multiple [of "Fin 1000000" Map.empty "[]"] by blast
  from ev q e show ?thesis by blast
qed

text \<open>
  Claim C2 as stated fails for negative total assets: with total assets -1 and one
  instrument at price 1 the returned target quantity is -100, neither 0 nor non-negative.
\<close>

theorem target_qty_negative_assets_counterexample:
  "calculate_target_positions (Fin (- 1)) [''X''] [''X'' \<mapsto> Some (Fin 1)] =
   Inr [(''X'', \<lparr>tp_weight = 1, tp_target_amount = - 1, tp_target_qty = - 100,
                 tp_actual_amount = - 100, tp_price = 1\<rparr>)]"
  by (simp add: eval_simps del: floor_div_100.simps(1))

text \<open>
  Claim C1, as the code has it. The requested instruments all resolve to the same positive
  price \<open>p\<close>. Name the floats the source computes: \<open>w\<close> is \<open>1.0 / n\<close> for the length
  \<open>n\<close> of the requested list, \<open>ta\<close> is \<open>A * w\<close>, \<open>q\<close> is \<open>ta / p\<close>, of magnitude below
  \<open>2^53\<close>, and \<open>a\<close> is the product of the quantity and the price. Then the function
  returns an allocation for exactly the requested instruments, each with
  \<open>target_qty = floor(q / 100) * 100\<close> and actual amount \<open>a\<close>. When the three operations
  are exact, so that \<open>q\<close> is \<open>A / n / p\<close>, this is the quantity
  \<open>floor(A / n / p / 100) * 100\<close>; when the product is exact as well, the sum of the
  actual amounts is at most \<open>A\<close>, provided \<open>A\<close> is non-negative or the list has no
  duplicate.
\<close>

theorem equal_price_allocation:
  assumes ne: "stocks \<noteq> []" and p: "0 < p"
    and up: "\<forall>s \<in> set stocks. prices_get prices s = Some (Fin p)"
    and w: "float_div_int (Fin 1) (int (length stocks)) = Inr (Fin w)"
    and ta: "fmul (Fin A) (Fin w) = Fin ta"
    and q: "fdiv (Fin ta) (Fin p) = Inr (Fin q)" "\<bar>q\<bar> < 2 ^ 53"
    and a: "int_mul_float (\<lfloor>q / 100\<rfloor> * 100) (Fin p) = Inr (Fin a)"
  shows "\<exists>tps. calculate_target_positions (Fin A) stocks prices = Inr tps \<and>
     fst ` set tps = set stocks \<and>
     (\<forall>(s, e) \<in> set tps.
        tp_target_qty e = \<lfloor>q / 100\<rfloor> * 100 \<and> tp_actual_amount e = a) \<and>
     (w = 1 / real (length stocks) \<and> ta = A * w \<and> q = ta / p \<longrightarrow>
        (\<forall>(s, e) \<in> set tps.
           tp_target_qty e = \<lfloor>A / real (length stocks) / p / 100\<rfloor> * 100) \<and>
        (a = real_of_int (\<lfloor>q / 100\<rfloor> * 100) * p \<and> (0 \<le> A \<or> distinct stocks) \<longrightarrow>
           total_actual_amount tps \<le> A))"
proof -
  let ?n = "length stocks"
  let ?tq = "\<lfloor>q / 100\<rfloor> * 100"
  from ne have n: "0 < ?n" by simp
  from uniform_price_allocation[OF ne p up w ta q a] obtain tps
    where c: "calculate_target_positions (Fin A) stocks prices = Inr tps"
      and d: "distinct (map fst tps)"
      and keys: "fst ` set tps = set stocks"
      and ent: "\<forall>s e. (s, e) \<in> set tps \<longrightarrow>
        e = \<lparr>tp_weight = w, tp_target_amount = ta, tp_target_qty = ?tq,
             tp_actual_amount = a, tp_price = p\<rparr>"
    by blast
  have qty: "tp_target_qty e = ?tq \<and> tp_actual_amount e = a" if "(s, e) \<in> set tps" for s e
  proof -
    from ent that have "e = \<lparr>tp_weight = w, tp_target_amount = ta, tp_target_qty = ?tq,
             tp_actual_amount = a, tp_price = p\<rparr>" by blast
    then show ?thesis by simp
  qed
  have exact: "(\<forall>(s, e) \<in> set tps.
           tp_target_qty e = \<lfloor>A / real ?n / p / 100\<rfloor> * 100) \<and>
        (a = real_of_int ?tq * p \<and> (0 \<le> A \<or> distinct stocks) \<longrightarrow>
           total_actual_amount tps \<le> A)"
    if x: "w = 1 / real ?n \<and> ta = A * w \<and> q = ta / p"
  proof -
    from x have qe: "q = A / real ?n / p" by simp
    have f: "\<forall>(s, e) \<in> set tps. tp_target_qty e = \<lfloor>A / real ?n / p / 100\<rfloor> * 100"
      using qty qe by auto
    have s: "total_actual_amount tps \<le> A"
      if ae: "a = real_of_int ?tq * p" and cond: "0 \<le> A \<or> distinct stocks"
    proof -
      have "total_actual_amount tps = real (length tps) * a"
        unfolding total_actual_amount_def
        by (rule sum_list_all_equal) (use qty in auto)
      moreover have "length tps = card (set stocks)"
      proof -
        have "length tps = length (map fst tps)" by simp
        also have "\<dots> = card (set (map fst tps))" using d by (simp only: distinct_card)
        also have "\<dots> = card (set stocks)" using keys by simp
        finally show ?thesis .
      qed
      ultimately have total: "total_actual_amount tps = real (card (set stocks)) * a" by simp
      have "real_of_int \<lfloor>q / 100\<rfloor> \<le> q / 100" by (rule of_int_floor_le)
      then have "real_of_int ?tq \<le> q" by simp
      with p have "real_of_int ?tq * p \<le> q * p" by (intro mult_right_mono) simp_all
      with p qe ae have share: "a \<le> A / real ?n" by simp
      have full: "real ?n * a \<le> A"
      proof -
        have "real ?n * a \<le> real ?n * (A / real ?n)"
          using share by (intro mult_left_mono) simp_all
        with n show ?thesis by simp
      qed
      from cond show ?thesis
      proof
        assume "distinct stocks"
        then have "card (set stocks) = ?n" by (rule distinct_card)
        with total full show ?thesis by simp
      next
        assume "0 \<le> A"
        with n p qe have "0 \<le> q" by simp
        then have "0 \<le> \<lfloor>q / 100\<rfloor>" by simp
        with p ae have "0 \<le> a" by simp
        moreover have "real (card (set stocks)) \<le> real ?n" by (simp add: card_length)
        ultimately have "real (card (set stocks)) * a \<le> real ?n * a"
          by (intro mult_right_mono)
        with total full show ?thesis by linarith
      qed
    qed
    from f s show ?thesis by blast
  qed
  from c keys qty exact show ?thesis by blast
qed

text \<open>The example of the specification: two instruments at price 100, 1,000,000 to invest.
  Every operation is exact there.\<close>

theorem equal_price_allocation_witness:
  "[''A'', ''B''] \<noteq> [] \<and> (0::real) < 100 \<and>
   prices_get [''A'' \<mapsto> Some (Fin 100), ''B'' \<mapsto> Some (Fin 100)] ''A'' = Some (Fin 100) \<and>
   prices_get [''A'' \<mapsto> Some (Fin 100), ''B'' \<mapsto> Some (Fin 100)] ''B'' = Some (Fin 100) \<and>
   float_div_int (Fin 1) (int (length [''A'', ''B''])) = Inr (Fin (1 / 2)) \<and>
   fmul (Fin 1000000) (Fin (1 / 2)) = Fin 500000 \<and>
   fdiv (Fin 500000) (Fin 100) = Inr (Fin 5000) \<and>
   int_mul_float (\<lfloor>(5000::real) / 100\<rfloor> * 100) (Fin 100) = Inr (Fin 500000) \<and>
   (\<exists>tps. calculate_target_positions (Fin 1000000) [''A'', ''B'']
            [''A'' \<mapsto> Some (Fin 100), ''B'' \<mapsto> Some (Fin 100)] = Inr tps \<and>
      fst ` set tps = {''A'', ''B''} \<and>
      (\<forall>(s, e) \<in> set tps. tp_target_qty e = 5000 \<and> tp_actual_amount e = 500000) \<and>
      total_actual_amount tps \<le> 1000000)"
proof -
  have h: "\<forall>s \<in> set [''A'', ''B''].
      prices_get [''A'' \<mapsto> Some (Fin 100), ''B'' \<mapsto> Some (Fin 100)] s = Some (Fin 100)"
    by (simp add: prices_get_def)
  have w: "float_div_int (Fin 1) (int (length [''A'', ''B''])) = Inr (Fin (1 / 2))"
    by (simp add: eval_simps)
  have ta: "fmul (Fin 1000000) (Fin (1 / 2)) = Fin 500000"
    by (simp add: eval_simps)
  have q: "fdiv (Fin 500000) (Fin 100) = Inr (Fin 5000)" "\<bar>5000::real\<bar> < 2 ^ 53"
    by (simp_all add: eval_simps)
  have a: "int_mul_float (\<lfloor>(5000::real) / 100\<rfloor> * 100) (Fin 100) = Inr (Fin 500000)"
    by (simp add: eval_simps)
  have ne: "[''A'', ''B''] \<noteq> []" and p: "(0::real) < 100" by simp_all
  from equal_price_allocation [OF ne p h w ta q a] h w ta q a
  show ?thesis by fastforce
qed

text \<open>
  Claim C1 as stated fails when total assets are negative and the list repeats an
  instrument: the share is computed from the list length 2, the allocation has one entry,
  and its amount -200 is above the total assets -300. Every operation is exact here.
\<close>

theorem equal_price_sum_counterexample:
  "calculate_target_positions (Fin (- 300)) [''X'', ''X''] [''X'' \<mapsto> Some (Fin 1)] =
   Inr [(''X'', \<lparr>tp_weight = 1 / 2, tp_target_amount = - 150, tp_target_qty = - 200,
                 tp_actual_amount = - 200, tp_price = 1\<rparr>)] \<and>
   \<not> total_actual_amount
       [(''X'', \<lparr>tp_weight = 1 / 2, tp_target_amount = - 150, tp_target_qty = - 200,
                 tp_actual_amount = - 200, tp_price = 1\<rparr>)] \<le> - 300"
  by (simp add: eval_simps total_actual_amount_def del: floor_div_100.simps(1))

text \<open>
  Claim C9. In a returned allocation the keys are distinct and are the listed instruments
  whose price passed the check; the weight of every entry is the float \<open>1.0 / n\<close> for the
  length \<open>n\<close> of the requested list, duplicates included, its target amount is the total
  assets times that weight, and its quantity is the floor division of the target amount
  over the price, times 100 (that is \<open>floor(q / 100) * 100\<close> for the float quotient
  \<open>q\<close>, when \<open>q\<close> is below \<open>2^53\<close> in magnitude).
\<close>

theorem weight_counts_duplicates:
  assumes "calculate_target_positions A stocks prices = Inr tps"
  shows "distinct (map fst tps) \<and>
     fst ` set tps = {s \<in> set stocks. valid_price prices s} \<and>
     (\<forall>(s, e) \<in> set tps.
        float_div_int (Fin 1) (int (length stocks)) = Inr (Fin (tp_weight e)) \<and>
        fmul A (Fin (tp_weight e)) = Fin (tp_target_amount e) \<and>
        prices_get prices s = Some (Fin (tp_price e)) \<and> 0 < tp_price e \<and>
        (\<exists>q. fdiv (Fin (tp_target_amount e)) (Fin (tp_price e)) = Inr (Fin q) \<and>
              py_int (floor_div_100 (Fin q)) = Inr (tp_target_qty e div 100) \<and>
              100 dvd tp_target_qty e \<and>
              (\<bar>q\<bar> < 2 ^ 53 \<longrightarrow> tp_target_qty e = \<lfloor>q / 100\<rfloor> * 100)))"
proof -
  have "float_div_int (Fin 1) (int (length stocks)) = Inr (Fin (tp_weight e)) \<and>
        fmul A (Fin (tp_weight e)) = Fin (tp_target_amount e) \<and>
        prices_get prices s = Some (Fin (tp_price e)) \<and> 0 < tp_price e \<and>
        (\<exists>q. fdiv (Fin (tp_target_amount e)) (Fin (tp_price e)) = Inr (Fin q) \<and>
              py_int (floor_div_100 (Fin q)) = Inr (tp_target_qty e div 100) \<and>
              100 dvd tp_target_qty e \<and>
              (\<bar>q\<bar> < 2 ^ 53 \<longrightarrow> tp_target_qty e = \<lfloor>q / 100\<rfloor> * 100))"
    if m: "(s, e) \<in> set tps" for s e
  proof -
    from calculate_target_positions_Inr(4)[OF assms m] obtain w
      where v: "valid_price prices s"
        and w: "float_div_int (Fin 1) (int (length stocks)) = Inr w"
        and e: "target_entry w (fmul A w) (price_of prices s) = Inr e"
      by blast
    from target_entry_Inr[OF e] obtain q k
      where d: "fdiv (fmul A w) (price_of prices s) = Inr q"
        and i: "py_int (floor_div_100 q) = Inr k"
        and fw: "w = Fin (tp_weight e)" and fta: "fmul A w = Fin (tp_target_amount e)"
        and fp: "price_of prices s = Fin (tp_price e)"
        and t: "tp_target_qty e = k * 100"
      by blast
    from v fp have p: "prices_get prices s = Some (Fin (tp_price e))" "0 < tp_price e"
      by (auto simp: valid_price_def price_of_def split: option.splits)
    from i obtain qv where qv: "q = Fin qv" by (cases q) auto
    have ex: "\<bar>qv\<bar> < 2 ^ 53 \<longrightarrow> tp_target_qty e = \<lfloor>qv / 100\<rfloor> * 100"
    proof
      assume "\<bar>qv\<bar> < 2 ^ 53"
      from py_int_floor_div_100[OF this] i qv have "k = \<lfloor>qv / 100\<rfloor>" by simp
      with t show "tp_target_qty e = \<lfloor>qv / 100\<rfloor> * 100" by simp
    qed
    from w fw fta d fp qv i t p ex show ?thesis by auto
  qed
  with calculate_target_positions_Inr(1,2)[OF assms] show ?thesis by blast
qed

text \<open>
  A list that names one instrument twice: one entry, with weight 1/2 and half of the
  total assets as target amount.
\<close>

theorem weight_counts_duplicates_witness:
  "calculate_target_positions (Fin 1000000) [''A'', ''A''] [''A'' \<mapsto> Some (Fin 100)] =
   Inr [(''A'', \<lparr>tp_weight = 1 / 2, tp_target_amount = 500000, tp_target_qty = 5000,
                 tp_actual_amount = 500000, tp_price = 100\<rparr>)] \<and>
   float_div_int (Fin 1) (int (length [''A'', ''A''])) = Inr (Fin (1 / 2)) \<and>
   fmul (Fin 1000000) (Fin (1 / 2)) = Fin 500000"
proof -
  have ev: "calculate_target_positions (Fin 1000000) [''A'', ''A'']
      [''A'' \<mapsto> Some (Fin 100)] =
   Inr [(''A'', \<lparr>tp_weight = 1 / 2, tp_target_amount = 500000, tp_target_qty = 5000,
                 tp_actual_amount = 500000, tp_price = 100\<rparr>)]"
    by (simp add: eval_simps del: floor_div_100.simps(1))
  from weight_counts_duplicates [OF ev] ev show ?thesis by simp
qed

section \<open>Claims about calculate\_rebalancing and generate\_trading\_plan\<close>

text \<open>
  Claim C3. An instrument that is a key of the current positions and not of the target
  positions gets the action Sell with target quantity 0, action quantity the whole
  current quantity and the holding's own current price; the plan has the matching entry
  in its sell list, and the instrument is in neither of the other two lists.
\<close>

theorem current_only_is_sold:
  assumes "distinct (map fst current)" "map_of current k = Some h" "map_of target k = None"
  shows "map_of (calculate_rebalancing target current) k =
           Some \<lparr>rb_target_qty = 0, rb_current_qty = quantity h, rb_diff = - quantity h,
                 rb_action = Sell, rb_action_qty = quantity h, rb_price = current_price h\<rparr> \<and>
         \<lparr>o_stock = k, o_quantity = quantity h, o_price = current_price h,
          o_amount = real_of_int (quantity h) * current_price h\<rparr>
           \<in> set (sell_list (generate_trading_plan (calculate_rebalancing target current) cash)) \<and>
         k \<notin> set (buy_stocks (generate_trading_plan (calculate_rebalancing target current) cash)) \<and>
         k \<notin> set (hold_stocks (generate_trading_plan (calculate_rebalancing target current) cash))"
proof -
  let ?rb = "calculate_rebalancing target current"
  have m: "map_of ?rb k = Some (liquidation h)"
    using assms by (rule calculate_rebalancing_liquidation)
  have a: "rb_action (liquidation h) = Sell" by (simp add: liquidation_def)
  have d: "distinct (map fst ?rb)" by (rule calculate_rebalancing_distinct)
  from sell_list_member[OF m a, of cash]
  have "order_of k (liquidation h) \<in> set (sell_list (generate_trading_plan ?rb cash))" .
  moreover have "k \<notin> set (buy_stocks (generate_trading_plan ?rb cash))"
    using plan_membership(1)[OF d m, of cash] a by simp
  moreover have "k \<notin> set (hold_stocks (generate_trading_plan ?rb cash))"
    using plan_membership(3)[OF d m, of cash] a by simp
  ultimately show ?thesis
    using m by (simp add: liquidation_def order_of_def)
qed

text \<open>The example of the specification: a holding of 300 that is not a target.\<close>

theorem current_only_is_sold_witness:
  "distinct (map fst [(''C'', \<lparr>quantity = 300, cost_price = 10, current_price = 12\<rparr>)]) \<and>
   map_of [(''C'', \<lparr>quantity = 300, cost_price = 10, current_price = 12\<rparr>)] ''C'' =
     Some \<lparr>quantity = 300, cost_price = 10, current_price = 12\<rparr> \<and>
   map_of ([] :: (instrument, target_position) dict) ''C'' = None \<and>
   map_of (calculate_rebalancing []
             [(''C'', \<lparr>quantity = 300, cost_price = 10, current_price = 12\<rparr>)]) ''C'' =
     Some \<lparr>rb_target_qty = 0, rb_current_qty = 300, rb_diff = - 300,
           rb_action = Sell, rb_action_qty = 300, rb_price = 12\<rparr> \<and>
   \<lparr>o_stock = ''C'', o_quantity = 300, o_price = 12, o_amount = real_of_int 300 * 12\<rparr>
     \<in> set (sell_list (generate_trading_plan (calculate_rebalancing []
             [(''C'', \<lparr>quantity = 300, cost_price = 10, current_price = 12\<rparr>)]) 0))"
  using current_only_is_sold
    [of "[(''C'', \<lparr>quantity = 300, cost_price = 10, current_price = 12\<rparr>)]" "''C''"
        "\<lparr>quantity = 300, cost_price = 10, current_price = 12\<rparr>" "[]" 0]
  by simp

text \<open>
  Claim C4. In the returned plan the buy total is the sum of quantity times price over the
  buy list, the sell total the same over the sell list, and the available cash is the
  cash balance plus the sell total minus the buy total.
\<close>

theorem plan_totals:
  "total_buy_amount (generate_trading_plan rb cash) =
     (\<Sum>e\<leftarrow>buy_list (generate_trading_plan rb cash). real_of_int (o_quantity e) * o_price e) \<and>
   total_sell_amount (generate_trading_plan rb cash) =
     (\<Sum>e\<leftarrow>sell_list (generate_trading_plan rb cash). real_of_int (o_quantity e) * o_price e) \<and>
   available_cash (generate_trading_plan rb cash) =
     cash + total_sell_amount (generate_trading_plan rb cash)
          - total_buy_amount (generate_trading_plan rb cash) \<and>
   cash_balance (generate_trading_plan rb cash) = cash"
proof -
  let ?P = "generate_trading_plan rb cash"
  have tb: "total_buy_amount ?P = sum_list (map o_amount (buy_list ?P))"
    by (simp add: generate_trading_plan_def Let_def py_sum_sum_list split: prod.splits)
  have ts: "total_sell_amount ?P = sum_list (map o_amount (sell_list ?P))"
    by (simp add: generate_trading_plan_def Let_def py_sum_sum_list split: prod.splits)
  have ab: "map o_amount (buy_list ?P) = map (\<lambda>e. real_of_int (o_quantity e) * o_price e) (buy_list ?P)"
    by (rule map_cong[OF refl]) (simp only: buy_list_char amount_of_order)
  have as: "map o_amount (sell_list ?P) = map (\<lambda>e. real_of_int (o_quantity e) * o_price e) (sell_list ?P)"
    by (rule map_cong[OF refl]) (simp only: sell_list_char amount_of_order)
  have av: "available_cash ?P = cash + total_sell_amount ?P - total_buy_amount ?P"
    by (simp add: generate_trading_plan_def Let_def split: prod.splits)
  have cb: "cash_balance ?P = cash"
    by (simp add: generate_trading_plan_def Let_def split: prod.splits)
  from tb ts ab as av cb show ?thesis by simp
qed

text \<open>
  The example of the specification: cash 50,000, buys of 80,000 and sells of 20,000 leave
  -10,000.
\<close>

theorem plan_totals_witness:
  "total_buy_amount (generate_trading_plan
      [(''A'', \<lparr>rb_target_qty = 800, rb_current_qty = 0, rb_diff = 800, rb_action = Buy,
                rb_action_qty = 800, rb_price = 100\<rparr>),
       (''C'', \<lparr>rb_target_qty = 0, rb_current_qty = 200, rb_diff = - 200, rb_action = Sell,
                rb_action_qty = 200, rb_price = 100\<rparr>)] 50000) = 80000 \<and>
   total_sell_amount (generate_trading_plan
      [(''A'', \<lparr>rb_target_qty = 800, rb_current_qty = 0, rb_diff = 800, rb_action = Buy,
                rb_action_qty = 800, rb_price = 100\<rparr>),
       (''C'', \<lparr>rb_target_qty = 0, rb_current_qty = 200, rb_diff = - 200, rb_action = Sell,
                rb_action_qty = 200, rb_price = 100\<rparr>)] 50000) = 20000 \<and>
   available_cash (generate_trading_plan
      [(''A'', \<lparr>rb_target_qty = 800, rb_current_qty = 0, rb_diff = 800, rb_action = Buy,
                rb_action_qty = 800, rb_price = 100\<rparr>),
       (''C'', \<lparr>rb_target_qty = 0, rb_current_qty = 200, rb_diff = - 200, rb_action = Sell,
                rb_action_qty = 200, rb_price = 100\<rparr>)] 50000) = - 10000"
proof -
  let ?rb = "[(''A'', \<lparr>rb_target_qty = 800, rb_current_qty = 0, rb_diff = 800, rb_action = Buy,
                rb_action_qty = 800, rb_price = 100\<rparr>),
       (''C'', \<lparr>rb_target_qty = 0, rb_current_qty = 200, rb_diff = - 200, rb_action = Sell,
                rb_action_qty = 200, rb_price = 100\<rparr>)]"
  have b: "buy_list (generate_trading_plan ?rb 50000) =
             [\<lparr>o_stock = ''A'', o_quantity = 800, o_price = 100, o_amount = 80000\<rparr>]"
    by (simp add: generate_trading_plan_def Let_def)
  have s: "sell_list (generate_trading_plan ?rb 50000) =
             [\<lparr>o_stock = ''C'', o_quantity = 200, o_price = 100, o_amount = 20000\<rparr>]"
    by (simp add: generate_trading_plan_def Let_def)
  from plan_totals [of ?rb 50000] show ?thesis
    unfolding b s by simp
qed

text \<open>
  Claim C10. The function is total: every step of the source is a comparison, an append
  or an arithmetic operation on values that are present, so the model has no error
  branch and returns a plan for every rebalancing mapping and every cash balance. The
  instruments of the three lists, taken together, are the keys of the mapping, each
  exactly once, and the list an instrument is in is the one of its action.
\<close>

theorem plan_partition:
  assumes "distinct (map fst rb)"
  shows "distinct (buy_stocks (generate_trading_plan rb cash) @
                   sell_stocks (generate_trading_plan rb cash) @
                   hold_stocks (generate_trading_plan rb cash)) \<and>
         set (buy_stocks (generate_trading_plan rb cash) @
              sell_stocks (generate_trading_plan rb cash) @
              hold_stocks (generate_trading_plan rb cash)) = fst ` set rb \<and>
         (\<forall>(k, i) \<in> set rb.
            (k \<in> set (buy_stocks (generate_trading_plan rb cash)) \<longleftrightarrow> rb_action i = Buy) \<and>
            (k \<in> set (sell_stocks (generate_trading_plan rb cash)) \<longleftrightarrow> rb_action i = Sell) \<and>
            (k \<in> set (hold_stocks (generate_trading_plan rb cash)) \<longleftrightarrow> rb_action i = NoAction))"
proof -
  have d: "distinct (buy_stocks (generate_trading_plan rb cash) @
                   sell_stocks (generate_trading_plan rb cash) @
                   hold_stocks (generate_trading_plan rb cash))"
    unfolding buy_stocks_char sell_stocks_char hold_stocks_char
    using assms by (rule filtered_keys_partition)
  have c: "set (buy_stocks (generate_trading_plan rb cash) @
              sell_stocks (generate_trading_plan rb cash) @
              hold_stocks (generate_trading_plan rb cash)) = fst ` set rb"
    unfolding buy_stocks_char sell_stocks_char hold_stocks_char
    by (rule filtered_keys_cover)
  have m: "(k \<in> set (buy_stocks (generate_trading_plan rb cash)) \<longleftrightarrow> rb_action i = Buy) \<and>
            (k \<in> set (sell_stocks (generate_trading_plan rb cash)) \<longleftrightarrow> rb_action i = Sell) \<and>
            (k \<in> set (hold_stocks (generate_trading_plan rb cash)) \<longleftrightarrow> rb_action i = NoAction)"
    if "(k, i) \<in> set rb" for k i
  proof -
    from that assms have "map_of rb k = Some i" by simp
    from plan_membership[OF assms this, of cash] show ?thesis by simp
  qed
  from d c m show ?thesis by blast
qed

text \<open>A buy, a sell and a hold, with a cash balance that leaves the available cash negative.\<close>

theorem plan_partition_witness:
  "distinct (map fst
      [(''A'', \<lparr>rb_target_qty = 800, rb_current_qty = 0, rb_diff = 800, rb_action = Buy,
                rb_action_qty = 800, rb_price = 100\<rparr>),
       (''B'', \<lparr>rb_target_qty = 500, rb_current_qty = 500, rb_diff = 0, rb_action = NoAction,
                rb_action_qty = 0, rb_price = 20\<rparr>),
       (''C'', \<lparr>rb_target_qty = 0, rb_current_qty = 200, rb_diff = - 200, rb_action = Sell,
                rb_action_qty = 200, rb_price = 100\<rparr>)]) \<and>
   buy_stocks (generate_trading_plan
      [(''A'', \<lparr>rb_target_qty = 800, rb_current_qty = 0, rb_diff = 800, rb_action = Buy,
                rb_action_qty = 800, rb_price = 100\<rparr>),
       (''B'', \<lparr>rb_target_qty = 500, rb_current_qty = 500, rb_diff = 0, rb_action = NoAction,
                rb_action_qty = 0, rb_price = 20\<rparr>),
       (''C'', \<lparr>rb_target_qty = 0, rb_current_qty = 200, rb_diff = - 200, rb_action = Sell,
                rb_action_qty = 200, rb_price = 100\<rparr>)] 50000) = [''A''] \<and>
   sell_stocks (generate_trading_plan
      [(''A'', \<lparr>rb_target_qty = 800, rb_current_qty = 0, rb_diff = 800, rb_action = Buy,
                rb_action_qty = 800, rb_price = 100\<rparr>),
       (''B'', \<lparr>rb_target_qty = 500, rb_current_qty = 500, rb_diff = 0, rb_action = NoAction,
                rb_action_qty = 0, rb_price = 20\<rparr>),
       (''C'', \<lparr>rb_target_qty = 0, rb_current_qty = 200, rb_diff = - 200, rb_action = Sell,
                rb_action_qty = 200, rb_price = 100\<rparr>)] 50000) = [''C''] \<and>
   hold_stocks (generate_trading_plan
      [(''A'', \<lparr>rb_target_qty = 800, rb_current_qty = 0, rb_diff = 800, rb_action = Buy,
                rb_action_qty = 800, rb_price = 100\<rparr>),
       (''B'', \<lparr>rb_target_qty = 500, rb_current_qty = 500, rb_diff = 0, rb_action = NoAction,
                rb_action_qty = 0, rb_price = 20\<rparr>),
       (''C'', \<lparr>rb_target_qty = 0, rb_current_qty = 200, rb_diff = - 200, rb_action = Sell,
                rb_action_qty = 200, rb_price = 100\<rparr>)] 50000) = [''B''] \<and>
   available_cash (generate_trading_plan
      [(''A'', \<lparr>rb_target_qty = 800, rb_current_qty = 0, rb_diff = 800, rb_action = Buy,
                rb_action_qty = 800, rb_price = 100\<rparr>),
       (''B'', \<lparr>rb_target_qty = 500, rb_current_qty = 500, rb_diff = 0, rb_action = NoAction,
                rb_action_qty = 0, rb_price = 20\<rparr>),
       (''C'', \<lparr>rb_target_qty = 0, rb_current_qty = 200, rb_diff = - 200, rb_action = Sell,
                rb_action_qty = 200, rb_price = 100\<rparr>)] 50000) < 0"
proof -
  let ?rb = "[(''A'', \<lparr>rb_target_qty = 800, rb_current_qty = 0, rb_diff = 800, rb_action = Buy,
                rb_action_qty = 800, rb_price = 100\<rparr>),
       (''B'', \<lparr>rb_target_qty = 500, rb_current_qty = 500, rb_diff = 0, rb_action = NoAction,
                rb_action_qty = 0, rb_price = 20\<rparr>),
       (''C'', \<lparr>rb_target_qty = 0, rb_current_qty = 200, rb_diff = - 200, rb_action = Sell,
                rb_action_qty = 200, rb_price = 100\<rparr>)]"
  have d: "distinct (map fst ?rb)" by simp
  have ev: "buy_stocks (generate_trading_plan ?rb 50000) = [''A'']"
    "sell_stocks (generate_trading_plan ?rb 50000) = [''C'']"
    "hold_stocks (generate_trading_plan ?rb 50000) = [''B'']"
    "available_cash (generate_trading_plan ?rb 50000) < 0"
    by (simp_all add: generate_trading_plan_def Let_def buy_stocks_def sell_stocks_def
        hold_stocks_def py_sum_def)
  from plan_partition [OF d, of 50000] have
    "set (buy_stocks (generate_trading_plan ?rb 50000) @
          sell_stocks (generate_trading_plan ?rb 50000) @
          hold_stocks (generate_trading_plan ?rb 50000)) = fst ` set ?rb"
    by blast
  with d ev show ?thesis by simp
qed

text \<open>
  Claim C5, as the code has it. For every instrument of the target allocation, and for
  every instrument held with a positive quantity that is not in the target allocation,
  the action has \<open>diff = target_qty - current_qty\<close> and is Buy exactly when
  \<open>diff > 0\<close>, Sell exactly when \<open>diff < 0\<close> and Hold exactly when \<open>diff = 0\<close>;
  the plan has the instrument in the buy list, the sell list or the hold list
  accordingly, and in no other list.
\<close>

theorem actions_classified_by_diff:
  assumes "distinct (map fst target)" "distinct (map fst current)"
    and "map_of (calculate_rebalancing target current) k = Some i"
    and "map_of target k \<noteq> None \<or> (\<exists>h. map_of current k = Some h \<and> 0 < quantity h)"
  shows "rb_target_qty i = (case map_of target k of None \<Rightarrow> 0 | Some tg \<Rightarrow> tp_target_qty tg) \<and>
         rb_current_qty i = (case map_of current k of None \<Rightarrow> 0 | Some h \<Rightarrow> quantity h) \<and>
         rb_diff i = rb_target_qty i - rb_current_qty i \<and>
         (rb_action i = Buy \<longleftrightarrow> 0 < rb_diff i) \<and>
         (rb_action i = Sell \<longleftrightarrow> rb_diff i < 0) \<and>
         (rb_action i = NoAction \<longleftrightarrow> rb_diff i = 0) \<and>
         (k \<in> set (buy_stocks (generate_trading_plan (calculate_rebalancing target current) cash))
            \<longleftrightarrow> 0 < rb_diff i) \<and>
         (k \<in> set (sell_stocks (generate_trading_plan (calculate_rebalancing target current) cash))
            \<longleftrightarrow> rb_diff i < 0) \<and>
         (k \<in> set (hold_stocks (generate_trading_plan (calculate_rebalancing target current) cash))
            \<longleftrightarrow> rb_diff i = 0)"
proof -
  let ?rb = "calculate_rebalancing target current"
  have d: "distinct (map fst ?rb)" by (rule calculate_rebalancing_distinct)
  note m = calculate_rebalancing_map_of[OF assms(1,2), of k]
  have fields: "rb_target_qty i = (case map_of target k of None \<Rightarrow> 0 | Some tg \<Rightarrow> tp_target_qty tg) \<and>
         rb_current_qty i = (case map_of current k of None \<Rightarrow> 0 | Some h \<Rightarrow> quantity h) \<and>
         rb_diff i = rb_target_qty i - rb_current_qty i \<and>
         (rb_action i = Buy \<longleftrightarrow> 0 < rb_diff i) \<and>
         (rb_action i = Sell \<longleftrightarrow> rb_diff i < 0) \<and>
         (rb_action i = NoAction \<longleftrightarrow> rb_diff i = 0)"
  proof (cases "map_of target k")
    case (Some tg)
    with m assms(3) have "i = target_action current k tg" by simp
    with Some show ?thesis
      by (simp add: target_action_def Let_def split: option.splits)
  next
    case None
    with assms(4) obtain h where h: "map_of current k = Some h" "0 < quantity h" by auto
    with None m assms(3) have "i = liquidation h" by simp
    with None h show ?thesis by (simp add: liquidation_def)
  qed
  from plan_membership[OF d assms(3), of cash] fields show ?thesis by simp
qed

text \<open>A target of 500 that is already held: \<open>diff = 0\<close>, in the hold list only.\<close>

theorem actions_classified_by_diff_witness:
  "distinct (map fst [(''A'', \<lparr>tp_weight = 1, tp_target_amount = 5000, tp_target_qty = 500,
                               tp_actual_amount = 5000, tp_price = 10\<rparr>)]) \<and>
   distinct (map fst [(''A'', \<lparr>quantity = 500, cost_price = 9, current_price = 10\<rparr>)]) \<and>
   map_of (calculate_rebalancing
             [(''A'', \<lparr>tp_weight = 1, tp_target_amount = 5000, tp_target_qty = 500,
                       tp_actual_amount = 5000, tp_price = 10\<rparr>)]
             [(''A'', \<lparr>quantity = 500, cost_price = 9, current_price = 10\<rparr>)]) ''A'' =
     Some \<lparr>rb_target_qty = 500, rb_current_qty = 500, rb_diff = 0, rb_action = NoAction,
           rb_action_qty = 0, rb_price = 10\<rparr> \<and>
   ''A'' \<in> set (hold_stocks (generate_trading_plan (calculate_rebalancing
             [(''A'', \<lparr>tp_weight = 1, tp_target_amount = 5000, tp_target_qty = 500,
                       tp_actual_amount = 5000, tp_price = 10\<rparr>)]
             [(''A'', \<lparr>quantity = 500, cost_price = 9, current_price = 10\<rparr>)]) 0)) \<and>
   ''A'' \<notin> set (buy_stocks (generate_trading_plan (calculate_rebalancing
             [(''A'', \<lparr>tp_weight = 1, tp_target_amount = 5000, tp_target_qty = 500,
                       tp_actual_amount = 5000, tp_price = 10\<rparr>)]
             [(''A'', \<lparr>quantity = 500, cost_price = 9, current_price = 10\<rparr>)]) 0)) \<and>
   ''A'' \<notin> set (sell_stocks (generate_trading_plan (calculate_rebalancing
             [(''A'', \<lparr>tp_weight = 1, tp_target_amount = 5000, tp_target_qty = 500,
                       tp_actual_amount = 5000, tp_price = 10\<rparr>)]
             [(''A'', \<lparr>quantity = 500, cost_price = 9, current_price = 10\<rparr>)]) 0))"
proof -
  let ?t = "[(''A'', \<lparr>tp_weight = 1, tp_target_amount = 5000, tp_target_qty = 500,
                       tp_actual_amount = 5000, tp_price = 10\<rparr>)]"
  let ?c = "[(''A'', \<lparr>quantity = 500, cost_price = 9, current_price = 10\<rparr>)]"
  let ?i = "\<lparr>rb_target_qty = 500, rb_current_qty = 500, rb_diff = 0, rb_action = NoAction,
           rb_action_qty = 0, rb_price = 10\<rparr>"
  have dt: "distinct (map fst ?t)" and dc: "distinct (map fst ?c)" by simp_all
  have m: "map_of (calculate_rebalancing ?t ?c) ''A'' = Some ?i"
    by (simp add: calculate_rebalancing_def)
  have h: "map_of ?t ''A'' \<noteq> None \<or> (\<exists>h. map_of ?c ''A'' = Some h \<and> 0 < quantity h)"
    by simp
  from actions_classified_by_diff [OF dt dc m h, of 0] dt dc m show ?thesis by simp
qed

text \<open>
  Claim C5 as stated fails for an instrument that is only in the current holdings with
  quantity 0: the second loop gives it the action Sell without looking at the quantity,
  so \<open>diff = 0\<close> and the instrument is in the sell list, with quantity 0, and not in
  the hold list.
\<close>

theorem zero_holding_sold_counterexample:
  "calculate_rebalancing [] [(''Z'', \<lparr>quantity = 0, cost_price = 5, current_price = 5\<rparr>)] =
     [(''Z'', \<lparr>rb_target_qty = 0, rb_current_qty = 0, rb_diff = 0, rb_action = Sell,
               rb_action_qty = 0, rb_price = 5\<rparr>)] \<and>
   sell_list (generate_trading_plan
     (calculate_rebalancing [] [(''Z'', \<lparr>quantity = 0, cost_price = 5, current_price = 5\<rparr>)]) 0) =
     [\<lparr>o_stock = ''Z'', o_quantity = 0, o_price = 5, o_amount = 0\<rparr>] \<and>
   no_action_list (generate_trading_plan
     (calculate_rebalancing [] [(''Z'', \<lparr>quantity = 0, cost_price = 5, current_price = 5\<rparr>)]) 0) = []"
  by (simp add: calculate_rebalancing_def generate_trading_plan_def Let_def)

text \<open>
  Claim C7. The model of \<open>calculate_rebalancing\<close> is a function of its two arguments:
  the source reads nothing else. The mapping it returns depends only on the contents of
  the two input mappings (two runs on inputs that are equal as Python dictionaries, in
  whatever key order, return equal dictionaries), and the key order of the result is
  the target keys in their order followed by the holdings that are not targets in theirs.
\<close>

theorem rebalancing_determined_by_inputs:
  assumes "distinct (map fst t)" "distinct (map fst c)"
    and "distinct (map fst t')" "distinct (map fst c')"
    and "map_of t = map_of t'" "map_of c = map_of c'"
  shows "map_of (calculate_rebalancing t c) = map_of (calculate_rebalancing t' c') \<and>
         map fst (calculate_rebalancing t c) =
           map fst t @ filter (\<lambda>s. map_of t s = None) (map fst c)"
proof -
  have "target_action c k tg = target_action c' k tg" for k tg
    using assms(6) by (simp add: target_action_def)
  then have "map_of (calculate_rebalancing t c) k = map_of (calculate_rebalancing t' c') k" for k
    using assms by (simp add: calculate_rebalancing_map_of split: option.splits)
  then have "map_of (calculate_rebalancing t c) = map_of (calculate_rebalancing t' c')"
    by (rule ext)
  with calculate_rebalancing_keys[OF assms(1,2)] show ?thesis by simp
qed

text \<open>Two runs whose current positions list the same holdings in a different order.\<close>

theorem rebalancing_determined_by_inputs_witness:
  "distinct (map fst [(''A'', \<lparr>tp_weight = 1, tp_target_amount = 5000, tp_target_qty = 500,
                               tp_actual_amount = 5000, tp_price = 10\<rparr>)]) \<and>
   distinct (map fst [(''C'', \<lparr>quantity = 300, cost_price = 10, current_price = 12\<rparr>),
                      (''A'', \<lparr>quantity = 200, cost_price = 9, current_price = 10\<rparr>)]) \<and>
   distinct (map fst [(''A'', \<lparr>quantity = 200, cost_price = 9, current_price = 10\<rparr>),
                      (''C'', \<lparr>quantity = 300, cost_price = 10, current_price = 12\<rparr>)]) \<and>
   map_of [(''C'', \<lparr>quantity = 300, cost_price = 10, current_price = 12\<rparr>),
           (''A'', \<lparr>quantity = 200, cost_price = 9, current_price = 10\<rparr>)] =
   map_of [(''A'', \<lparr>quantity = 200, cost_price = 9, current_price = 10\<rparr>),
           (''C'', \<lparr>quantity = 300, cost_price = 10, current_price = 12\<rparr>)] \<and>
   map_of (calculate_rebalancing
      [(''A'', \<lparr>tp_weight = 1, tp_target_amount = 5000, tp_target_qty = 500,
                tp_actual_amount = 5000, tp_price = 10\<rparr>)]
      [(''C'', \<lparr>quantity = 300, cost_price = 10, current_price = 12\<rparr>),
       (''A'', \<lparr>quantity = 200, cost_price = 9, current_price = 10\<rparr>)]) =
   map_of (calculate_rebalancing
      [(''A'', \<lparr>tp_weight = 1, tp_target_amount = 5000, tp_target_qty = 500,
                tp_actual_amount = 5000, tp_price = 10\<rparr>)]
      [(''A'', \<lparr>quantity = 200, cost_price = 9, current_price = 10\<rparr>),
       (''C'', \<lparr>quantity = 300, cost_price = 10, current_price = 12\<rparr>)]) \<and>
   map fst (calculate_rebalancing
      [(''A'', \<lparr>tp_weight = 1, tp_target_amount = 5000, tp_target_qty = 500,
                tp_actual_amount = 5000, tp_price = 10\<rparr>)]
      [(''C'', \<lparr>quantity = 300, cost_price = 10, current_price = 12\<rparr>),
       (''A'', \<lparr>quantity = 200, cost_price = 9, current_price = 10\<rparr>)]) = [''A'', ''C'']"
proof -
  let ?t = "[(''A'', \<lparr>tp_weight = 1, tp_target_amount = 5000, tp_target_qty = 500,
                tp_actual_amount = 5000, tp_price = 10\<rparr>)]"
  let ?c = "[(''C'', \<lparr>quantity = 300, cost_price = 10, current_price = 12\<rparr>),
       (''A'', \<lparr>quantity = 200, cost_price = 9, current_price = 10\<rparr>)]"
  let ?c' = "[(''A'', \<lparr>quantity = 200, cost_price = 9, current_price = 10\<rparr>),
       (''C'', \<lparr>quantity = 300, cost_price = 10, current_price = 12\<rparr>)]"
  have dt: "distinct (map fst ?t)" and dc: "distinct (map fst ?c)"
    and dc': "distinct (map fst ?c')" by simp_all
  have mc: "map_of ?c = map_of ?c'" by (rule ext) simp
  from rebalancing_determined_by_inputs [OF dt dc dt dc' refl mc] dt dc dc' mc
  show ?thesis by simp
qed

text \<open>
  Claim C8. The price check of the loop skips an instrument whose price is \<open>None\<close>, zero
  or negative, and \<open>calculate_rebalancing\<close> then liquidates the holding (lemma
  \<open>guarded_price_is_liquidated\<close>). A price that is NaN is not strictly positive either,
  but \<open>price <= 0\<close> is false for it: the instrument is not skipped, the quotient is NaN
  and \<open>int\<close> raises \<open>ValueError\<close>. The function then returns no allocation at all,
  whatever the other instruments of the list are (lemma \<open>nan_price_never_returns\<close>).
\<close>

theorem nan_price_raises:
  "calculate_target_positions (Fin 10000) [''A''] [''A'' \<mapsto> Some NaN] =
   Inl (Raised ValueError)"
  by (simp add: eval_simps del: floor_div_100.simps(1))

section \<open>Claim about read\_selection\_result\<close>

text \<open>
  Claim C6. The function does try the header-based parse first and runs the
  line-oriented block when that parse raises. But the header-based parse does not raise
  on a plain list of instrument codes: the file with the two lines \<open>SH600000\<close> and
  \<open>SH600001\<close> is read as a table with the single column \<open>SH600000\<close>, and the
  function returns the empty list, where the line-oriented block on the same file gives
  the two codes.
\<close>

theorem plain_text_selection_returns_nothing:
  "read_selection_result (Some ''SH600000\<newline>SH600001\<newline>'') = Returned [] \<and>
   line_loop (file_lines ''SH600000\<newline>SH600001\<newline>'') [] = [''SH600000'', ''SH600001'']"
proof -
  have "read_selection_result (Some ''SH600000\<newline>SH600001\<newline>'') = Returned []"
    by (simp add: read_selection_result_def in_model_def file_lines_def try_csv_def csv_row_def
      field_size_limit_def dict_row_def row_get_def py_or_def)
  moreover have "line_loop (file_lines ''SH600000\<newline>SH600001\<newline>'') [] =
      [''SH600000'', ''SH600001'']"
    by (simp add: file_lines_def py_strip_def is_space_def)
  ultimately show ?thesis by simp
qed

end
